theory Spec2Isabelle
  imports Main "HOL-Library.Sublist" "HOL-Library.AList"
begin

section \<open>Strings\<close>

text \<open>
  A JavaScript string is a sequence of UTF-16 code units; \<open>length\<close>, \<open>charAt\<close>,
  \<open>substr\<close> and the regular expressions of the source (none has the \<open>u\<close> flag) all
  count code units.  A code unit is modelled by its number, an integer.  Group names and scheme
  names, which are ASCII in the source, are HOL strings.
\<close>

type_synonym jschar = int
type_synonym jsstring = "jschar list"

definition js :: "string \<Rightarrow> jsstring" where
  "js s = map of_char s"

section \<open>Sanscript.detect\<close>

definition SCHEMES :: "(string \<times> int option) list" where
  "SCHEMES =
    [(''Bengali'', Some 2432), (''Devanagari'', Some 2304), (''Gujarati'', Some 2688),
     (''Gurmukhi'', Some 2560), (''Kannada'', Some 3200), (''Malayalam'', Some 3328),
     (''Oriya'', Some 2816), (''Tamil'', Some 2944), (''Telugu'', Some 3072),
     (''HK'', None), (''IAST'', None), (''ITRANS'', None), (''Kolkata'', None),
     (''SLP1'', None), (''Velthuis'', None)]"

definition BRAHMIC_FIRST_CODE_POINT :: int where
  "BRAHMIC_FIRST_CODE_POINT = 2304"

definition BRAHMIC_LAST_CODE_POINT :: int where
  "BRAHMIC_LAST_CODE_POINT = 3455"

text \<open>
  A regular expression of the detector is an alternation of fixed-length sequences of
  character classes; \<open>re_test\<close> is \<open>RegExp.test\<close> for one such sequence: some
  substring of the text matches it.
\<close>

fun match_here :: "(jschar \<Rightarrow> bool) list \<Rightarrow> jsstring \<Rightarrow> bool" where
  "match_here [] s = True"
| "match_here (p # ps) [] = False"
| "match_here (p # ps) (c # s) = (p c \<and> match_here ps s)"

fun re_test :: "(jschar \<Rightarrow> bool) list \<Rightarrow> jsstring \<Rightarrow> bool" where
  "re_test ps [] = match_here ps []"
| "re_test ps (c # s) = (match_here ps (c # s) \<or> re_test ps s)"

definition lit :: "string \<Rightarrow> (jschar \<Rightarrow> bool) list" where
  "lit s = map (\<lambda>c x. x = of_char c) s"

definition cls :: "jschar list \<Rightarrow> jschar \<Rightarrow> bool" where
  "cls cs x = (x \<in> set cs)"

definition re_alt :: "(jschar \<Rightarrow> bool) list list \<Rightarrow> jsstring \<Rightarrow> bool" where
  "re_alt alts text = list_ex (\<lambda>ps. re_test ps text) alts"

text \<open>\<open>\W\<close>: a code unit that is not in \<open>[A-Za-z0-9_]\<close>.\<close>

definition word_char :: "jschar \<Rightarrow> bool" where
  "word_char x = ((65 \<le> x \<and> x \<le> 90) \<or> (97 \<le> x \<and> x \<le> 122) \<or> (48 \<le> x \<and> x \<le> 57) \<or> x = 95)"

text \<open>\<open>/[\<dots>]/\<close> over a, i, u with macron, vocalic r and l, e and o with macron,
  m and h with dot below, the nasals, the retroflexes, the sibilants and l with line
  below: the code units of the class, in the order of the source.\<close>

definition RE_IAST_OR_KOLKATA_ONLY :: "jsstring \<Rightarrow> bool" where
  "RE_IAST_OR_KOLKATA_ONLY =
     re_alt [[cls [257, 299, 363, 7771, 7773, 7735, 7737, 275, 333, 7747, 7717, 7749, 241,
                   7789, 7693, 7751, 347, 7779, 7739]]]"

definition RE_ITRANS_OR_VELTHUIS_ONLY :: "jsstring \<Rightarrow> bool" where
  "RE_ITRANS_OR_VELTHUIS_ONLY = re_alt [lit ''aa'', lit ''ii'', lit ''uu'', lit ''~n'']"

definition RE_ITRANS_ONLY :: "jsstring \<Rightarrow> bool" where
  "RE_ITRANS_ONLY =
     re_alt [lit ''ee'', lit ''oo'', lit ''^'' @ [cls (js ''iI'')],
             lit ''RR'' @ [cls (js ''iI'')], lit ''L'' @ [cls (js ''iI'')], lit ''~N'',
             lit ''N^'', lit ''Ch'', lit ''chh'', lit ''JN'', lit ''sh'', lit ''Sh'',
             lit ''.a'']"

definition RE_KOLKATA_ONLY :: "jsstring \<Rightarrow> bool" where
  "RE_KOLKATA_ONLY = re_alt [[cls [275, 333]]]"

text \<open>The last alternative, \<open>(\W|^)G\<close>, is a \<open>G\<close> after a non-word code unit or at
  the start of the text.\<close>

definition RE_SLP1_ONLY :: "jsstring \<Rightarrow> bool" where
  "RE_SLP1_ONLY text =
     (re_alt [[cls (js ''fFxXEOCYwWqQPB'')], lit ''kz'', lit ''Nk'', lit ''Ng'', lit ''tT'',
              lit ''dD'', lit ''Sc'', lit ''Sn'',
              [cls (js ''aAiIuUfFxXeEoO'')] @ lit ''R'',
              lit ''G'' @ [cls (js ''yr'')],
              [\<lambda>x. \<not> word_char x] @ lit ''G''] text
      \<or> match_here (lit ''G'') text)"

definition RE_VELTHUIS_ONLY :: "jsstring \<Rightarrow> bool" where
  "RE_VELTHUIS_ONLY =
     re_alt [lit ''.'' @ [cls (js ''mhnrltds'')], [\<lambda>x. x = 34] @ lit ''n'', lit ''~s'']"

text \<open>\<open>Scheme[value] = value\<close> for every name of \<open>SCHEMES\<close>; a name that is not
  there reads \<open>undefined\<close>, which is \<open>None\<close>.\<close>

definition Scheme :: "string \<Rightarrow> string option" where
  "Scheme = map_of (map (\<lambda>x. (fst x, fst x)) SCHEMES)"

text \<open>\<open>filter\<close> keeps the entries whose code point is neither null nor zero; the
  comparator \<open>y[1] - x[1]\<close> sorts by descending code point (the sort is stable).\<close>

definition BLOCKS :: "(string \<times> int) list" where
  "BLOCKS =
     sort_key (\<lambda>x. - snd x)
       (List.map_filter
          (\<lambda>x. case snd x of None \<Rightarrow> None | Some k \<Rightarrow> if k = 0 then None else Some (fst x, k))
          SCHEMES)"

fun find_block :: "(string \<times> int) list \<Rightarrow> int \<Rightarrow> string option" where
  "find_block [] code = None"
| "find_block (block # bs) code = (if code \<ge> snd block then Some (fst block) else find_block bs code)"

fun detect_brahmic :: "jsstring \<Rightarrow> string option" where
  "detect_brahmic [] = None"
| "detect_brahmic (L # text) =
     (if L \<ge> BRAHMIC_FIRST_CODE_POINT \<and> L \<le> BRAHMIC_LAST_CODE_POINT
      then (case find_block BLOCKS L of Some n \<Rightarrow> Some n | None \<Rightarrow> detect_brahmic text)
      else detect_brahmic text)"

definition detect_roman :: "jsstring \<Rightarrow> string option" where
  "detect_roman text =
     (if RE_IAST_OR_KOLKATA_ONLY text
      then (if RE_KOLKATA_ONLY text then Scheme ''Kolkata'' else Scheme ''IAST'')
      else if RE_ITRANS_ONLY text then Scheme ''ITRANS''
      else if RE_SLP1_ONLY text then Scheme ''SLP1''
      else if RE_VELTHUIS_ONLY text then Scheme ''Velthuis''
      else if RE_ITRANS_OR_VELTHUIS_ONLY text then Scheme ''ITRANS''
      else Scheme ''HK'')"

definition detect :: "jsstring \<Rightarrow> string option" where
  "detect text = (case detect_brahmic text of Some n \<Rightarrow> Some n | None \<Rightarrow> detect_roman text)"

text \<open>The blocks as the specification enumerates them, and the block it asks for: the
  one with the greatest start that is at most the code point.\<close>

definition enumerated_blocks :: "(string \<times> int) list" where
  "enumerated_blocks =
     [(''Devanagari'', 2304), (''Gurmukhi'', 2560), (''Gujarati'', 2688), (''Oriya'', 2816),
      (''Tamil'', 2944), (''Telugu'', 3072), (''Kannada'', 3200), (''Malayalam'', 3328),
      (''Bengali'', 2432)]"

definition greatest_block_below :: "int \<Rightarrow> string \<Rightarrow> bool" where
  "greatest_block_below code n =
     (\<exists>s. (n, s) \<in> set enumerated_blocks \<and> s \<le> code \<and>
          (\<forall>b \<in> set enumerated_blocks. snd b \<le> code \<longrightarrow> snd b \<le> s))"

definition in_brahmic_range :: "jschar \<Rightarrow> bool" where
  "in_brahmic_range c = (2304 \<le> c \<and> c \<le> 3455)"

section \<open>Schemes and the registry\<close>

text \<open>
  A scheme is an object whose properties are groups (\<open>vowels\<close>, \<open>vowel_marks\<close>,
  \<open>consonants\<close>, \<open>virama\<close>, \<open>shortcuts\<close>, \<dots>), each an object from a canonical key
  to the scheme's rendering, and the three properties \<open>alternates\<close>,
  \<open>accented_vowel_alternates\<close> and \<open>isRomanScheme\<close>.  An object that the source
  enumerates (\<open>for \<dots> in\<close>, \<open>Object.entries\<close>, \<open>Object.keys\<close>, \<open>Object.values\<close>) is an
  association list in enumeration order; \<open>map_of\<close> reads a property and \<open>None\<close> is
  \<open>undefined\<close>.  Only own properties are modelled: the properties every object inherits
  from \<open>Object.prototype\<close> (\<open>constructor\<close>, \<open>toString\<close>, \<dots>) are not.  The scheme tables
  themselves are not part of the source file; every definition takes them as a
  parameter.
\<close>

type_synonym group = "(jsstring \<times> jsstring) list"

record scheme =
  groups :: "(string \<times> group) list"
  alternates :: "(jsstring \<times> jsstring list) list option"
  accented_vowel_alternates :: "(jsstring \<times> jsstring list) list option"
  isRomanScheme :: bool

type_synonym registry = "string \<Rightarrow> scheme option"

datatype error = TypeError

section \<open>makeMap\<close>

record tables =
  consonants :: "(jsstring \<times> jsstring) list"
  accents :: "(jsstring \<times> jsstring) list"
  letters :: "(jsstring \<times> jsstring) list"
  marks :: "(jsstring \<times> jsstring) list"

record build = tables +
  tokenLengths :: "nat list"

text \<open>\<open>maxTokenLength\<close> is \<open>None\<close> for \<open>-Infinity\<close>, the value of \<open>Math.max\<close> of no
  argument.  \<open>virama\<close>, \<open>toSchemeA\<close> and \<open>fromSchemeA\<close> are \<open>None\<close> when the group has no
  such key.  The fields \<open>from\<close> and \<open>to\<close> of the source are \<open>map_from\<close> and \<open>map_to\<close>.\<close>

record cmap = tables +
  fromRoman :: bool
  maxTokenLength :: "nat option"
  toRoman :: bool
  virama :: "jsstring option"
  toSchemeA :: "jsstring option"
  fromSchemeA :: "jsstring option"
  map_from :: string
  map_to :: string

definition empty_build :: build where
  "empty_build = \<lparr>consonants = [], accents = [], letters = [], marks = [], tokenLengths = []\<rparr>"

text \<open>\<open>m[F] = T\<close> followed by \<open>m[alts[j]] = T\<close> for every alternate.\<close>

definition put_all ::
  "(jsstring \<times> jsstring) list \<Rightarrow> jsstring \<Rightarrow> jsstring list \<Rightarrow> jsstring \<Rightarrow> (jsstring \<times> jsstring) list"
where
  "put_all m F alts T = fold (\<lambda>k. AList.update k T) (F # alts) m"

text \<open>The body of the loop over \<open>Object.entries(fromGroup)\<close>.\<close>

definition add_entry ::
  "string \<Rightarrow> (jsstring \<times> jsstring list) list \<Rightarrow> group \<Rightarrow> jsstring \<times> jsstring \<Rightarrow> build \<Rightarrow> build"
where
  "add_entry grp alternates_of toGroup kF b =
     (case map_of toGroup (fst kF) of
        None \<Rightarrow> b
      | Some T0 \<Rightarrow>
          let F = snd kF;
              T = (if T0 = [] \<and> grp \<notin> set [''virama'', ''zwj'', ''skip''] then F else T0);
              alts = (case map_of alternates_of F of None \<Rightarrow> [] | Some a \<Rightarrow> a);
              b1 = b\<lparr>tokenLengths := tokenLengths b @ map length (F # alts)\<rparr>
          in if grp = ''vowel_marks'' \<or> grp = ''virama''
             then b1\<lparr>marks := put_all (marks b1) F alts T\<rparr>
             else
               let b2 = b1\<lparr>letters := put_all (letters b1) F alts T\<rparr>;
                   b3 = (if grp = ''consonants'' \<or> grp = ''extra_consonants''
                         then b2\<lparr>consonants := put_all (consonants b2) F alts T\<rparr> else b2)
               in if grp = ''accents''
                  then b3\<lparr>accents := put_all (accents b3) F alts T\<rparr> else b3)"

text \<open>The body of the loop over the groups of the source scheme.\<close>

definition add_group :: "scheme \<Rightarrow> scheme \<Rightarrow> string \<times> group \<Rightarrow> build \<Rightarrow> build" where
  "add_group fromScheme toScheme g b =
     (if fst g \<in> set [''alternates'', ''accented_vowel_alternates'', ''isRomanScheme''] then b
      else case map_of (groups toScheme) (fst g) of
             None \<Rightarrow> b
           | Some toGroup \<Rightarrow>
               fold (add_entry (fst g)
                       (case alternates fromScheme of None \<Rightarrow> [] | Some a \<Rightarrow> a) toGroup)
                 (snd g) b)"

text \<open>
  One synonym of an accented vowel.  \<open>baseAccentedVowel[length - 1]\<close> of the empty string
  is \<open>undefined\<close>, which reads the property \<open>"undefined"\<close> and concatenates as the string
  \<open>"undefined"\<close>.  When \<open>letters[baseVowel]\<close> is \<open>undefined\<close> the source logs with
  \<open>console.error\<close> and then calls \<open>concat\<close> on it, which raises a TypeError.
\<close>

definition add_synonym :: "jsstring \<Rightarrow> jsstring \<Rightarrow> build \<Rightarrow> error + build" where
  "add_synonym baseAccentedVowel accentedVowel b =
     (let baseVowel = butlast baseAccentedVowel;
          sourceAccent = (if baseAccentedVowel = [] then js ''undefined''
                          else [last baseAccentedVowel]);
          targetAccent = (case map_of (accents b) sourceAccent of
                            None \<Rightarrow> sourceAccent
                          | Some a \<Rightarrow> if a = [] then sourceAccent else a);
          marks' = AList.update accentedVowel
                     ((case map_of (marks b) baseVowel of None \<Rightarrow> [] | Some m \<Rightarrow> m) @ targetAccent)
                     (marks b)
      in case map_of (letters b) baseVowel of
           None \<Rightarrow> Inl TypeError
         | Some l \<Rightarrow>
             Inr (b\<lparr>marks := marks',
                     letters := AList.update accentedVowel (l @ targetAccent) (letters b)\<rparr>))"

fun add_synonyms :: "jsstring \<Rightarrow> jsstring list \<Rightarrow> build \<Rightarrow> error + build" where
  "add_synonyms baseAccentedVowel [] b = Inr b"
| "add_synonyms baseAccentedVowel (s # synonyms) b =
     (case add_synonym baseAccentedVowel s b of
        Inl e \<Rightarrow> Inl e
      | Inr b' \<Rightarrow> add_synonyms baseAccentedVowel synonyms b')"

fun add_accented :: "(jsstring \<times> jsstring list) list \<Rightarrow> build \<Rightarrow> error + build" where
  "add_accented [] b = Inr b"
| "add_accented (e # es) b =
     (case add_synonyms (fst e) (snd e) b of
        Inl err \<Rightarrow> Inl err
      | Inr b' \<Rightarrow> add_accented es b')"

text \<open>\<open>Math.max.apply(Math, tokenLengths)\<close>.\<close>

definition max_of :: "nat list \<Rightarrow> nat option" where
  "max_of ns = (case ns of [] \<Rightarrow> None | n # rest \<Rightarrow> Some (fold max rest n))"

text \<open>The Devanagari short a (U+0905) and virama (U+094D), the keys that \<open>makeMap\<close>
  reads from the \<open>vowels\<close> and \<open>virama\<close> groups.\<close>

definition deva_a :: jsstring where
  "deva_a = [2309]"

definition deva_virama :: jsstring where
  "deva_virama = [2381]"

text \<open>
  \<open>makeMap\<close>.  Reading a property of \<open>undefined\<close> raises a TypeError: that is what
  happens when \<open>from\<close> or \<open>to\<close> is not registered (for \<open>to\<close>, at the first group of the
  source scheme or, when it has none, at the \<open>return\<close>), and when the target scheme has
  no \<open>virama\<close> or \<open>vowels\<close> group or the source scheme has no \<open>vowels\<close> group.  The
  \<open>options\<close> argument is never read.
\<close>

definition makeMap :: "registry \<Rightarrow> string \<Rightarrow> string \<Rightarrow> 'o \<Rightarrow> error + cmap" where
  "makeMap schemes from_name to_name options =
     (case schemes from_name of
        None \<Rightarrow> Inl TypeError
      | Some fromScheme \<Rightarrow>
         (case schemes to_name of
            None \<Rightarrow> Inl TypeError
          | Some toScheme \<Rightarrow>
             (case (case accented_vowel_alternates fromScheme of
                      None \<Rightarrow> Inr (fold (add_group fromScheme toScheme) (groups fromScheme) empty_build)
                    | Some ava \<Rightarrow>
                        add_accented ava
                          (fold (add_group fromScheme toScheme) (groups fromScheme) empty_build)) of
                Inl e \<Rightarrow> Inl e
              | Inr b \<Rightarrow>
                 (case map_of (groups toScheme) ''virama'' of
                    None \<Rightarrow> Inl TypeError
                  | Some to_virama \<Rightarrow>
                     (case map_of (groups toScheme) ''vowels'' of
                        None \<Rightarrow> Inl TypeError
                      | Some to_vowels \<Rightarrow>
                         (case map_of (groups fromScheme) ''vowels'' of
                            None \<Rightarrow> Inl TypeError
                          | Some from_vowels \<Rightarrow>
                             Inr \<lparr>consonants = consonants b,
                                  accents = accents b,
                                  letters = letters b,
                                  marks = marks b,
                                  fromRoman = isRomanScheme fromScheme,
                                  maxTokenLength = max_of (tokenLengths b),
                                  toRoman = isRomanScheme toScheme,
                                  virama = map_of to_virama deva_virama,
                                  toSchemeA = map_of to_vowels deva_a,
                                  fromSchemeA = map_of from_vowels deva_a,
                                  map_from = from_name,
                                  map_to = to_name\<rparr>))))))"

section \<open>Values and options\<close>

text \<open>
  The values an option can hold.  \<open>VRef\<close> is a reference to an object of the heap;
  \<open>x !== y\<close> on these values is inequality (two references are equal when they are the
  same address).  Numbers are not modelled.  The properties of an object are an association
  list from property names to values.
\<close>

type_synonym addr = nat

datatype jsval = VUndefined | VNull | VBool bool | VStr jsstring | VRef addr

type_synonym obj = "(jsstring \<times> jsval) list"

fun truthy :: "jsval \<Rightarrow> bool" where
  "truthy VUndefined = False"
| "truthy VNull = False"
| "truthy (VBool b) = b"
| "truthy (VStr s) = (s \<noteq> [])"
| "truthy (VRef a) = True"

text \<open>\<open>o[key]\<close>: \<open>undefined\<close> when the object has no such property.\<close>

definition get_prop :: "obj \<Rightarrow> jsstring \<Rightarrow> jsval" where
  "get_prop ob key = (case map_of ob key of None \<Rightarrow> VUndefined | Some v \<Rightarrow> v)"

section \<open>transliterateRoman\<close>

text \<open>
  \<open>buf\<close> holds what the source pushes: \<open>Virama\<close> stands for \<open>buf.push(virama)\<close>, whose
  text is the \<open>virama\<close> of the map (the empty string when it is \<open>undefined\<close>, as
  \<open>join\<close> renders it), \<open>Text\<close> for every other push.

  \<open>steps\<close> is a history variable that the source does not have: one record for each
  run of the inner loop that consumed a token, with the token, how it was consumed
  (\<open>Matched\<close>: found in \<open>letters\<close> outside a pass-through region; \<open>Unmatched\<close>: the
  single leading code unit, copied; \<open>Toggle\<close>: a \<open>##\<close>), what was pushed for it and how
  many candidate lengths were tried.  Nothing reads it.
\<close>

datatype push = Virama | Text jsstring

datatype tok_kind = Matched | Unmatched | Toggle

record step =
  token :: jsstring
  kind :: tok_kind
  pushes :: "push list"
  tries :: nat

record rstate =
  buf :: "push list"
  hadConsonant :: bool
  tokenBuffer :: jsstring
  skippingSGML :: jsval
  toggledTrans :: bool
  steps :: "step list"

definition record_step :: "jsstring \<Rightarrow> tok_kind \<Rightarrow> push list \<Rightarrow> nat \<Rightarrow> rstate \<Rightarrow> rstate" where
  "record_step tok k ps n st =
     st\<lparr>buf := buf st @ ps,
        steps := steps st @ [\<lparr>token = tok, kind = k, pushes = ps, tries = n\<rparr>]\<rparr>"

text \<open>
  What a matched token pushes, by the target and \<open>hadConsonant\<close>; \<open>tempLetter\<close> is
  \<open>letters[token]\<close>, which is defined when the token is matched.
\<close>

definition matched_pushes :: "cmap \<Rightarrow> bool \<Rightarrow> jsstring \<Rightarrow> push list" where
  "matched_pushes cm had tok =
     (case map_of (letters cm) tok of
        None \<Rightarrow> []
      | Some tempLetter \<Rightarrow>
          if toRoman cm then [Text tempLetter]
          else if had then
            (case map_of (marks cm) tok of
               Some tempMark \<Rightarrow>
                 if tempMark \<noteq> [] then [Text tempMark]
                 else if Some tok \<noteq> fromSchemeA cm then [Virama, Text tempLetter] else []
             | None \<Rightarrow> if Some tok \<noteq> fromSchemeA cm then [Virama, Text tempLetter] else [])
          else [Text tempLetter])"

text \<open>
  The first chain of tests on a candidate token: \<open>is_toggle\<close> is its third branch (the
  token is \<open>##\<close>, outside SGML, and the loop breaks), \<open>sgml_next\<close> is \<open>skippingSGML\<close>
  after the chain otherwise.
\<close>

definition is_toggle :: "rstate \<Rightarrow> jsstring \<Rightarrow> bool" where
  "is_toggle st tok = (skippingSGML st \<noteq> VBool True \<and> tok \<noteq> js ''<'' \<and> tok = js ''##'')"

definition sgml_next :: "jsval \<Rightarrow> rstate \<Rightarrow> jsstring \<Rightarrow> jsval" where
  "sgml_next optSkipSGML st tok =
     (if skippingSGML st = VBool True then VBool (tok \<noteq> js ''>'')
      else if tok = js ''<'' then optSkipSGML
      else skippingSGML st)"

text \<open>
  The loop \<open>for (j = 0; j < maxTokenLength; j++)\<close>, from \<open>j\<close> on.  \<open>substr(0, n)\<close> is
  \<open>take n\<close> and \<open>substr(n)\<close> is \<open>drop n\<close>.  \<open>skippingTrans\<close> is assigned before each
  use, so it is a local here.
\<close>

function inner :: "cmap \<Rightarrow> jsval \<Rightarrow> jsval \<Rightarrow> nat \<Rightarrow> nat \<Rightarrow> rstate \<Rightarrow> rstate" where
  "inner cm optSkipSGML optSyncope mx j st =
     (if j < mx then
        (let tok = take (mx - j) (tokenBuffer st) in
         if is_toggle st tok
         then record_step tok Toggle [] (j + 1)
                (st\<lparr>toggledTrans := \<not> toggledTrans st, tokenBuffer := drop 2 (tokenBuffer st)\<rparr>)
         else
           (let st1 = st\<lparr>skippingSGML := sgml_next optSkipSGML st tok\<rparr>;
                skippingTrans = (truthy (skippingSGML st1) \<or> toggledTrans st1)
            in if map_of (letters cm) tok \<noteq> None \<and> \<not> skippingTrans
               then record_step tok Matched (matched_pushes cm (hadConsonant st1) tok) (j + 1)
                      (st1\<lparr>hadConsonant :=
                              (if toRoman cm then hadConsonant st1
                               else map_of (consonants cm) tok \<noteq> None),
                           tokenBuffer := drop (mx - j) (tokenBuffer st1)\<rparr>)
               else if j = mx - 1
               then record_step tok Unmatched
                      ((if hadConsonant st1 \<and> \<not> truthy optSyncope then [Virama] else [])
                       @ [Text tok]) (j + 1)
                      (st1\<lparr>hadConsonant := False, tokenBuffer := drop 1 (tokenBuffer st1)\<rparr>)
               else inner cm optSkipSGML optSyncope mx (j + 1) st1))
      else st)"
  by pat_completeness auto
termination
  by (relation "measure (\<lambda>(cm, sk, sy, mx, j, st). mx - j)") auto

text \<open>One iteration of the outer loop: fill the token buffer, then match.\<close>

definition roman_iter ::
  "cmap \<Rightarrow> jsval \<Rightarrow> jsval \<Rightarrow> nat \<Rightarrow> jsstring \<Rightarrow> nat \<Rightarrow> rstate \<Rightarrow> rstate"
where
  "roman_iter cm optSkipSGML optSyncope mx data i st =
     (let difference = int mx - int (length (tokenBuffer st)) in
      if difference > 0 \<and> i < length data
      then (let st1 = st\<lparr>tokenBuffer := tokenBuffer st @ [data ! i]\<rparr> in
            if difference > 1 then st1 else inner cm optSkipSGML optSyncope mx 0 st1)
      else inner cm optSkipSGML optSyncope mx 0 st)"

text \<open>
  The outer loop \<open>for (i = 0; (L = data.charAt(i)) || tokenBuffer; i++)\<close>.  Nothing in
  its text bounds the number of iterations, so it is a partial function: \<open>None\<close> is a
  run that does not return.
\<close>

partial_function (option) roman_loop ::
  "cmap \<Rightarrow> jsval \<Rightarrow> jsval \<Rightarrow> nat \<Rightarrow> jsstring \<Rightarrow> nat \<Rightarrow> rstate \<Rightarrow> rstate option"
where
  "roman_loop cm optSkipSGML optSyncope mx data i st =
     (if i < length data \<or> tokenBuffer st \<noteq> []
      then roman_loop cm optSkipSGML optSyncope mx data (i + 1)
             (roman_iter cm optSkipSGML optSyncope mx data i st)
      else Some st)"

declare roman_loop.simps [code]

definition roman_init :: rstate where
  "roman_init =
     \<lparr>buf = [], hadConsonant = False, tokenBuffer = [], skippingSGML = VBool False,
      toggledTrans = False, steps = []\<rparr>"

text \<open>With \<open>maxTokenLength = -Infinity\<close> the buffer is never filled and the inner loop
  never runs, which is what the bound \<open>0\<close> gives as well.\<close>

definition max_len :: "cmap \<Rightarrow> nat" where
  "max_len cm = (case maxTokenLength cm of None \<Rightarrow> 0 | Some n \<Rightarrow> n)"

definition roman_run :: "cmap \<Rightarrow> obj \<Rightarrow> jsstring \<Rightarrow> rstate option" where
  "roman_run cm options data =
     roman_loop cm (get_prop options (js ''skip_sgml'')) (get_prop options (js ''syncope''))
       (max_len cm) data 0 roman_init"

definition push_text :: "cmap \<Rightarrow> push \<Rightarrow> jsstring" where
  "push_text cm p = (case p of Virama \<Rightarrow> (case virama cm of None \<Rightarrow> [] | Some v \<Rightarrow> v) | Text s \<Rightarrow> s)"

text \<open>
  \<open>s.replace(/([A])([B])/g, "$2$1")\<close> for two character classes given by their code
  units: left to right, each non-overlapping pair of a code unit of \<open>A\<close> followed by
  one of \<open>B\<close> is swapped.  The classes are built by joining scheme renderings; this
  reads them as plain lists of code units, which is what the regular expression means
  as long as the renderings contain none of the characters special inside a class
  (backslash, closing bracket, caret, hyphen).
\<close>

fun swap_pairs :: "jschar list \<Rightarrow> jschar list \<Rightarrow> jsstring \<Rightarrow> jsstring" where
  "swap_pairs A B (x # y # s) =
     (if x \<in> set A \<and> y \<in> set B then y # x # swap_pairs A B s
      else x # swap_pairs A B (y # s))"
| "swap_pairs A B s = s"

text \<open>\<open>Object.values(g).join("")\<close>.\<close>

definition values_joined :: "group \<Rightarrow> jschar list" where
  "values_joined g = concat (map snd g)"

text \<open>
  What follows the loop, from the pushed values: \<open>buf.join("")\<close> and, for a Brahmic
  target of a map with accents, the swap of each accent followed by a yogavaaha.
  Reading \<open>toScheme['yogavaahas']\<close> of an unregistered target, or the values of a
  missing group, raises a TypeError.
\<close>

definition roman_result :: "registry \<Rightarrow> cmap \<Rightarrow> push list \<Rightarrow> error + jsstring" where
  "roman_result schemes cm buf' =
     (let result = concat (map (push_text cm) buf')
      in if \<not> toRoman cm \<and> accents cm \<noteq> []
         then (case schemes (map_to cm) of
                 None \<Rightarrow> Inl TypeError
               | Some toScheme \<Rightarrow>
                  (case map_of (groups toScheme) ''yogavaahas'' of
                     None \<Rightarrow> Inl TypeError
                   | Some y \<Rightarrow>
                       Inr (swap_pairs (values_joined (accents cm)) (values_joined y) result)))
         else Inr result)"

text \<open>
  \<open>transliterateRoman\<close>: the loop, then the push of a virama when \<open>hadConsonant\<close> is
  set and \<open>syncope\<close> is off, then the result.  \<open>None\<close> is a loop that does not return.
\<close>

definition transliterateRoman ::
  "registry \<Rightarrow> jsstring \<Rightarrow> cmap \<Rightarrow> obj \<Rightarrow> (error + jsstring) option"
where
  "transliterateRoman schemes data cm options =
     (case roman_run cm options data of
        None \<Rightarrow> None
      | Some st \<Rightarrow>
          Some (roman_result schemes cm
                  (buf st @ (if hadConsonant st \<and> \<not> truthy (get_prop options (js ''syncope''))
                             then [Virama] else []))))"

section \<open>transliterateBrahmic\<close>

record bstate =
  bbuf :: "jsstring list"
  danglingHash :: bool
  hadRomanConsonant :: bool
  skippingTrans :: bool

definition push_a :: "cmap \<Rightarrow> bstate \<Rightarrow> bstate" where
  "push_a cm st =
     (if hadRomanConsonant st
      then st\<lparr>bbuf := bbuf st @ [case toSchemeA cm of None \<Rightarrow> [] | Some a \<Rightarrow> a],
              hadRomanConsonant := False\<rparr>
      else st)"

text \<open>The body of the loop over the code units of \<open>data\<close>; \<open>35\<close> is \<open>#\<close>.\<close>

definition brahmic_step :: "cmap \<Rightarrow> jschar \<Rightarrow> bstate \<Rightarrow> bstate" where
  "brahmic_step cm L st =
     (if L = 35
      then push_a cm (if danglingHash st
                      then st\<lparr>skippingTrans := \<not> skippingTrans st, danglingHash := False\<rparr>
                      else st\<lparr>danglingHash := True\<rparr>)
      else if skippingTrans st then st\<lparr>bbuf := bbuf st @ [[L]]\<rparr>
      else
        (case map_of (marks cm) [L] of
           Some temp \<Rightarrow> st\<lparr>bbuf := bbuf st @ [temp], hadRomanConsonant := False\<rparr>
         | None \<Rightarrow>
            (let st1 = (if danglingHash st
                        then st\<lparr>bbuf := bbuf st @ [[35]], danglingHash := False\<rparr> else st);
                 st2 = push_a cm st1
             in case map_of (letters cm) [L] of
                  None \<Rightarrow> st2\<lparr>bbuf := bbuf st2 @ [[L]]\<rparr>
                | Some temp \<Rightarrow>
                    if temp \<noteq> []
                    then st2\<lparr>bbuf := bbuf st2 @ [temp],
                             hadRomanConsonant := (toRoman cm \<and> map_of (consonants cm) [L] \<noteq> None)\<rparr>
                    else st2\<lparr>bbuf := bbuf st2 @ [[L]]\<rparr>)))"

definition brahmic_init :: bstate where
  "brahmic_init = \<lparr>bbuf = [], danglingHash = False, hadRomanConsonant = False, skippingTrans = False\<rparr>"

definition brahmic_loop :: "cmap \<Rightarrow> jsstring \<Rightarrow> bstate \<Rightarrow> bstate" where
  "brahmic_loop cm data st = fold (brahmic_step cm) data st"

definition brahmic_finish :: "cmap \<Rightarrow> bstate \<Rightarrow> jsstring" where
  "brahmic_finish cm st = concat (bbuf (push_a cm st))"

definition transliterateBrahmic ::
  "registry \<Rightarrow> jsstring \<Rightarrow> cmap \<Rightarrow> obj \<Rightarrow> error + jsstring"
where
  "transliterateBrahmic schemes data cm options =
     (if toRoman cm \<and> accents cm \<noteq> []
      then (case schemes (map_to cm) of
              None \<Rightarrow> Inl TypeError
            | Some toScheme \<Rightarrow>
               (case map_of (groups toScheme) ''yogavaahas'' of
                  None \<Rightarrow> Inl TypeError
                | Some y \<Rightarrow>
                    Inr (brahmic_finish cm
                           (brahmic_loop cm
                              (swap_pairs (values_joined y) (values_joined (accents cm)) data)
                              brahmic_init))))
      else Inr (brahmic_finish cm (brahmic_loop cm data brahmic_init)))"

section \<open>Two small schemes\<close>

text \<open>
  A Roman and a Brahmic scheme in the shape of the library's tables (a fragment of
  Harvard-Kyoto and of Devanagari): the vowels a, aa, i, the marks of aa and i, the
  consonants ka, kha, na, ma, ra, the virama, visarga and anusvara.  The Roman scheme carries the
  \<open>vowel_marks\<close> group that \<open>addRomanScheme\<close> derives from its vowels.
\<close>

definition ex_hk :: scheme where
  "ex_hk =
     \<lparr>groups =
        [(''vowels'', [([2309], js ''a''), ([2310], js ''A''), ([2311], js ''i'')]),
         (''yogavaahas'', [([2306], js ''M''), ([2307], js ''H'')]),
         (''virama'', [([2381], [])]),
         (''consonants'', [([2325], js ''k''), ([2326], js ''kh''), ([2344], js ''n''),
                         ([2350], js ''m''), ([2352], js ''r'')]),
         (''vowel_marks'', [([2366], js ''A''), ([2367], js ''i'')])],
      alternates = None,
      accented_vowel_alternates = None,
      isRomanScheme = True\<rparr>"

definition ex_deva :: scheme where
  "ex_deva =
     \<lparr>groups =
        [(''vowels'', [([2309], [2309]), ([2310], [2310]), ([2311], [2311])]),
         (''vowel_marks'', [([2366], [2366]), ([2367], [2367])]),
         (''yogavaahas'', [([2306], [2306]), ([2307], [2307])]),
         (''virama'', [([2381], [2381])]),
         (''consonants'', [([2325], [2325]), ([2326], [2326]), ([2344], [2344]),
                         ([2350], [2350]), ([2352], [2352])])],
      alternates = None,
      accented_vowel_alternates = None,
      isRomanScheme = False\<rparr>"

definition ex_schemes :: registry where
  "ex_schemes = [''hk'' \<mapsto> ex_hk, ''devanagari'' \<mapsto> ex_deva]"

section \<open>The history of a Roman run\<close>

text \<open>
  \<open>next_had\<close> is \<open>hadConsonant\<close> after a step, from its value before: a \<open>##\<close> leaves
  it, a copied code unit clears it, a matched token sets it to \<open>token in consonants\<close>
  (a Roman target never assigns it).  \<open>had_after\<close> runs it over a history.
\<close>

definition next_had :: "cmap \<Rightarrow> bool \<Rightarrow> step \<Rightarrow> bool" where
  "next_had cm had s =
     (case kind s of
        Toggle \<Rightarrow> had
      | Unmatched \<Rightarrow> False
      | Matched \<Rightarrow> if toRoman cm then had else map_of (consonants cm) (token s) \<noteq> None)"

definition had_after :: "cmap \<Rightarrow> bool \<Rightarrow> step list \<Rightarrow> bool" where
  "had_after cm had ss = fold (\<lambda>s h. next_had cm h s) ss had"

text \<open>What the inner loop does for one token, given \<open>hadConsonant\<close> before it.\<close>

definition step_ok :: "cmap \<Rightarrow> bool \<Rightarrow> nat \<Rightarrow> bool \<Rightarrow> step \<Rightarrow> bool" where
  "step_ok cm syn mx had s =
     (length (token s) \<le> mx \<and> 1 \<le> tries s \<and> tries s \<le> mx \<and>
      (case kind s of
         Toggle \<Rightarrow> pushes s = [] \<and> token s = js ''##''
       | Matched \<Rightarrow>
           map_of (letters cm) (token s) \<noteq> None \<and>
           pushes s = matched_pushes cm had (token s)
       | Unmatched \<Rightarrow>
           pushes s = (if had \<and> \<not> syn then [Virama] else []) @ [Text (token s)] \<and>
           length (token s) = 1))"

fun steps_ok :: "cmap \<Rightarrow> bool \<Rightarrow> nat \<Rightarrow> bool \<Rightarrow> step list \<Rightarrow> bool" where
  "steps_ok cm syn mx had [] = True"
| "steps_ok cm syn mx had (s # ss) =
     (step_ok cm syn mx had s \<and> steps_ok cm syn mx (next_had cm had s) ss)"

definition rinv :: "cmap \<Rightarrow> bool \<Rightarrow> nat \<Rightarrow> rstate \<Rightarrow> bool" where
  "rinv cm syn mx st =
     (steps_ok cm syn mx False (steps st) \<and>
      hadConsonant st = had_after cm False (steps st) \<and>
      buf st = concat (map pushes (steps st)) \<and>
      (tokenBuffer st = [] \<or> 1 \<le> mx))"



















text \<open>The compiled map of the two small schemes, Roman to Brahmic and back.\<close>

definition ex_map_hk_deva :: cmap where
  "ex_map_hk_deva =
     \<lparr>consonants = [([107], [2325]), ([107, 104], [2326]), ([110], [2344]), ([109], [2350]),
                    ([114], [2352])],
      accents = [],
      letters = [([97], [2309]), ([65], [2310]), ([105], [2311]), ([77], [2306]), ([72], [2307]),
                 ([107], [2325]), ([107, 104], [2326]), ([110], [2344]), ([109], [2350]),
                 ([114], [2352])],
      marks = [([], [2381]), ([65], [2366]), ([105], [2367])],
      fromRoman = True, maxTokenLength = Some 2, toRoman = False,
      virama = Some [2381], toSchemeA = Some [2309], fromSchemeA = Some [97],
      map_from = ''hk'', map_to = ''devanagari''\<rparr>"

definition ex_map_deva_hk :: cmap where
  "ex_map_deva_hk =
     \<lparr>consonants = [([2325], [107]), ([2326], [107, 104]), ([2344], [110]), ([2350], [109]),
                    ([2352], [114])],
      accents = [],
      letters = [([2309], [97]), ([2310], [65]), ([2311], [105]), ([2306], [77]), ([2307], [72]),
                 ([2325], [107]), ([2326], [107, 104]), ([2344], [110]), ([2350], [109]),
                 ([2352], [114])],
      marks = [([2366], [65]), ([2367], [105]), ([2381], [])],
      fromRoman = False, maxTokenLength = Some 1, toRoman = True,
      virama = Some [], toSchemeA = Some [97], fromSchemeA = Some [2309],
      map_from = ''devanagari'', map_to = ''hk''\<rparr>"

section \<open>String operations of the dispatcher\<close>

text \<open>\<open>s.includes(pat)\<close>.\<close>

fun includes_js :: "jsstring \<Rightarrow> jsstring \<Rightarrow> bool" where
  "includes_js [] pat = (pat = [])"
| "includes_js (c # s) pat = (prefix pat (c # s) \<or> includes_js s pat)"

text \<open>
  \<open>s.replace(pat, rep)\<close> with a string pattern: only the first occurrence is replaced.
  (The replacement is taken literally; a \<open>$\<close> in it, which \<open>replace\<close> would interpret,
  is not modelled.)
\<close>

fun replace_first :: "jsstring \<Rightarrow> jsstring \<Rightarrow> jsstring \<Rightarrow> jsstring" where
  "replace_first pat rep [] = (if pat = [] then rep else [])"
| "replace_first pat rep (c # s) =
     (if prefix pat (c # s) then rep @ drop (length pat) (c # s)
      else c # replace_first pat rep s)"

text \<open>
  Replacing every occurrence, left to right and without overlap: \<open>s.split(pat).join(rep)\<close>
  and \<open>s.replace(/pat/g, rep)\<close> for a literal pattern.  The counter is the number of
  code units of the current match still to skip.  Splitting by the empty string gives
  the code units, so the replacement goes between them.
\<close>

fun replace_from :: "jsstring \<Rightarrow> jsstring \<Rightarrow> nat \<Rightarrow> jsstring \<Rightarrow> jsstring" where
  "replace_from pat rep k [] = []"
| "replace_from pat rep (Suc k) (c # s) = replace_from pat rep k s"
| "replace_from pat rep 0 (c # s) =
     (if prefix pat (c # s) then rep @ replace_from pat rep (length pat - 1) s
      else c # replace_from pat rep 0 s)"

fun between :: "jsstring \<Rightarrow> jsstring \<Rightarrow> jsstring" where
  "between rep [] = []"
| "between rep [c] = [c]"
| "between rep (c # s) = c # rep @ between rep s"

definition replace_all :: "jsstring \<Rightarrow> jsstring \<Rightarrow> jsstring \<Rightarrow> jsstring" where
  "replace_all pat rep s = (if pat = [] then between rep s else replace_from pat rep 0 s)"

text \<open>\<open>data.replace(/\\([^'`_]|$)/g, "##$1##")\<close>: a backslash (92) followed by a code unit
  other than \<open>'\<close> (39), \<open>`\<close> (96) and \<open>_\<close> (95), or by the end of the input.\<close>

fun itrans_escapes :: "jsstring \<Rightarrow> jsstring" where
  "itrans_escapes [] = []"
| "itrans_escapes [c] = (if c = 92 then js ''####'' else [c])"
| "itrans_escapes (c # d # s) =
     (if c = 92 \<and> d \<notin> {39, 96, 95} then js ''##'' @ [d] @ js ''##'' @ itrans_escapes s
      else c # itrans_escapes (d # s))"

definition is_digit :: "jschar \<Rightarrow> bool" where
  "is_digit c = (48 \<le> c \<and> c \<le> 57)"

text \<open>\<open>replace(RE_REMAIN_NUM_DOT, (s) => s.replace('.', '##.##'))\<close> with
  \<open>/\d\.\d/g\<close>; 46 is the dot.\<close>

fun remain_num_dot :: "jsstring \<Rightarrow> jsstring" where
  "remain_num_dot (a # b # c # s) =
     (if is_digit a \<and> b = 46 \<and> is_digit c then a # js ''##.##'' @ c # remain_num_dot s
      else a # remain_num_dot (b # c # s))"
| "remain_num_dot s = s"

text \<open>\<open>replace(RE_ALTERNATE_PUNC, (s) => (s.length > 1 ? s[0] : '') + '|')\<close> with
  \<open>/(^|[^#\\])[,?!:]/g\<close>: one of \<open>, ? ! :\<close> at the very start, or after a code unit
  that is neither \<open>#\<close> (35) nor a backslash; 124 is the bar.\<close>

definition is_punc :: "jschar \<Rightarrow> bool" where
  "is_punc c = (c \<in> {44, 63, 33, 58})"

fun alternate_punc_from :: "jsstring \<Rightarrow> jsstring" where
  "alternate_punc_from (c # d # s) =
     (if c \<notin> {35, 92} \<and> is_punc d then c # 124 # alternate_punc_from s
      else c # alternate_punc_from (d # s))"
| "alternate_punc_from s = s"

definition alternate_punc :: "jsstring \<Rightarrow> jsstring" where
  "alternate_punc s =
     (case s of
        [] \<Rightarrow> []
      | c # r \<Rightarrow> if is_punc c then 124 # alternate_punc_from r else alternate_punc_from s)"

text \<open>The four rewrites for IAST to Devanagari: the quotes U+2018 and U+2019 become
  \<open>'\<close>, the dot between digits is protected, \<open>-\<close> (45) is removed, punctuation
  becomes a bar.\<close>

definition iast_devanagari_pre :: "jsstring \<Rightarrow> jsstring" where
  "iast_devanagari_pre data =
     alternate_punc
       (filter (\<lambda>c. c \<noteq> 45)
          (remain_num_dot (map (\<lambda>c. if c = 8216 \<or> c = 8217 then 39 else c) data)))"

text \<open>
  The two rewrites for \<open>tamil_superscripted\<close>, with the class \<open>C\<close> of marks and the
  superscripts 2, 3, 4 (178, 179, 8308).  \<open>/([C]+)([S])/g\<close> to \<open>"$2$1"\<close>: a run of marks
  is matched greedily and shortened until a superscript follows; \<open>best_run\<close> is the
  length of the run that matches at the head of the text, if any.  \<open>/([S])([C]+)/g\<close>
  to \<open>"$2$1"\<close>: a superscript followed by the longest run of marks.  (As for
  \<open>swap_pairs\<close>, the class is read as a plain list of code units.)
\<close>

definition is_super :: "jschar \<Rightarrow> bool" where
  "is_super c = (c \<in> {178, 179, 8308})"

fun best_run :: "jschar list \<Rightarrow> jsstring \<Rightarrow> nat option" where
  "best_run C [] = None"
| "best_run C [c] = None"
| "best_run C (c # d # s) =
     (if c \<in> set C
      then (case best_run C (d # s) of
              Some k \<Rightarrow> Some (Suc k)
            | None \<Rightarrow> if is_super d then Some 1 else None)
      else None)"

fun super_first_from :: "jschar list \<Rightarrow> nat \<Rightarrow> jsstring \<Rightarrow> jsstring" where
  "super_first_from C k [] = []"
| "super_first_from C (Suc k) (c # s) = super_first_from C k s"
| "super_first_from C 0 (c # s) =
     (case best_run C (c # s) of
        Some k \<Rightarrow> (c # s) ! k # take k (c # s) @ super_first_from C k s
      | None \<Rightarrow> c # super_first_from C 0 s)"

fun super_last_from :: "jschar list \<Rightarrow> nat \<Rightarrow> jsstring \<Rightarrow> jsstring" where
  "super_last_from C k [] = []"
| "super_last_from C (Suc k) (c # s) = super_last_from C k s"
| "super_last_from C 0 (c # s) =
     (if is_super c \<and> takeWhile (\<lambda>x. x \<in> set C) s \<noteq> []
      then takeWhile (\<lambda>x. x \<in> set C) s @ [c]
           @ super_last_from C (length (takeWhile (\<lambda>x. x \<in> set C) s)) s
      else c # super_last_from C 0 s)"

text \<open>The class of the two patterns: the vowel marks of \<open>tamil_superscripted\<close>, its
  virama (the string \<open>undefined\<close> when the group has no such key) and the two accents
  U+0952 and U+0951.  A missing scheme or group raises a TypeError.\<close>

definition tamil_class :: "registry \<Rightarrow> error + jschar list" where
  "tamil_class schemes =
     (case schemes ''tamil_superscripted'' of
        None \<Rightarrow> Inl TypeError
      | Some ts \<Rightarrow>
         (case map_of (groups ts) ''vowel_marks'' of
            None \<Rightarrow> Inl TypeError
          | Some vm \<Rightarrow>
             (case map_of (groups ts) ''virama'' of
                None \<Rightarrow> Inl TypeError
              | Some vi \<Rightarrow>
                  Inr (values_joined vm
                       @ (case map_of vi deva_virama of None \<Rightarrow> js ''undefined'' | Some v \<Rightarrow> v)
                       @ [2386, 2385]))))"

text \<open>\<open>toLowerCase\<close> on a name of the detector, which is ASCII.\<close>

definition lower_char :: "char \<Rightarrow> char" where
  "lower_char c =
     (if (65::nat) \<le> of_char c \<and> (of_char c :: nat) \<le> 90 then char_of (of_char c + (32::nat)) else c)"

definition toLowerCase :: "string \<Rightarrow> string" where
  "toLowerCase s = map lower_char s"

section \<open>Sanscript.t\<close>

text \<open>
  An object of the heap is its own data properties and its integrity level: an
  extensible object takes every write; an object made non-extensible
  (\<open>Object.preventExtensions\<close>, \<open>Object.seal\<close>) takes a write to a property it has and
  no new property; a frozen object (\<open>Object.freeze\<close>) takes no write.  Accessors,
  properties that are singly made read-only and prototypes other than
  \<open>Object.prototype\<close> are not modelled.
\<close>

datatype integrity = Extensible | NonExtensible | Frozen

record hobj =
  props :: obj
  level :: integrity

type_synonym store = "(addr \<times> hobj) list"

text \<open>
  The state that \<open>Sanscript.t\<close> reads and writes: the heap of the objects that the
  caller and the library share (option objects and the objects they refer to), the
  one-slot \<open>cache\<close> (\<open>None\<close> is the initial \<open>{}\<close>), the scheme registry and
  \<open>Sanscript.defaults\<close>.  The cache keeps a reference to the option object of the call
  that filled it, not a copy.
\<close>

record cache_slot =
  cache_from :: string
  cache_map :: cmap
  cache_options :: addr
  cache_to :: string

record jstate =
  heap :: store
  cache :: "cache_slot option"
  sanscript_schemes :: registry
  defaults :: obj

text \<open>The properties and the level of the object at an address; an address with no
  object reads as an empty extensible object.\<close>

definition obj_at :: "store \<Rightarrow> addr \<Rightarrow> obj" where
  "obj_at h a = (case map_of h a of None \<Rightarrow> [] | Some ob \<Rightarrow> props ob)"

definition level_at :: "store \<Rightarrow> addr \<Rightarrow> integrity" where
  "level_at h a = (case map_of h a of None \<Rightarrow> Extensible | Some ob \<Rightarrow> level ob)"

text \<open>
  \<open>o[key] = v\<close>.  The library is strict code (\<open>"use strict"\<close> opens its body), so a
  write that the object does not take raises a TypeError and writes nothing.
\<close>

definition set_prop :: "store \<Rightarrow> addr \<Rightarrow> jsstring \<Rightarrow> jsval \<Rightarrow> error + store" where
  "set_prop h a key v =
     (if level_at h a = Frozen \<or> (level_at h a = NonExtensible \<and> map_of (obj_at h a) key = None)
      then Inl TypeError
      else Inr (AList.update a \<lparr>props = AList.update key v (obj_at h a), level = level_at h a\<rparr> h))"

text \<open>\<open>Sanscript.defaults\<close> as the source writes it; \<open>p\<close> is the address of the empty
  object that \<open>preferred_alternates\<close> refers to.\<close>

definition sanscript_defaults :: "addr \<Rightarrow> obj" where
  "sanscript_defaults p =
     [(js ''skip_sgml'', VBool False), (js ''syncope'', VBool False),
      (js ''preferred_alternates'', VRef p), (js ''split_aksara'', VBool False),
      (js ''move_consonant'', VBool False)]"

definition initial_state :: "registry \<Rightarrow> jstate" where
  "initial_state schemes =
     \<lparr>heap = [(0, \<lparr>props = [], level = Extensible\<rparr>)], cache = None,
      sanscript_schemes = schemes,
      defaults = sanscript_defaults 0\<rparr>"

text \<open>\<open>options = options || {}\<close>: without an option object a new one is allocated.\<close>

definition fresh_addr :: "store \<Rightarrow> addr" where
  "fresh_addr h = Suc (fold max (map fst h) 0)"

text \<open>
  The body of the loop over the keys of the defaults.  It writes \<open>options[key]\<close> in the
  heap, which may raise, and then reads \<open>cachedOptions[key]\<close>, which is the option
  object of the cached call, read through its reference, or \<open>{}\<close> when the cache is
  empty.
\<close>

definition merge_key ::
  "obj \<Rightarrow> addr \<Rightarrow> addr option \<Rightarrow> jsstring \<Rightarrow> store \<times> bool \<Rightarrow> error + store \<times> bool"
where
  "merge_key dflt optr cached key hp =
     (let options = obj_at (fst hp) optr;
          v = (if map_of options key \<noteq> None then get_prop options key else get_prop dflt key)
      in case set_prop (fst hp) optr key v of
           Inl e \<Rightarrow> Inl e
         | Inr h' \<Rightarrow>
             (let cachedOptions = (case cached of None \<Rightarrow> [] | Some c \<Rightarrow> obj_at h' c)
              in Inr (h', snd hp \<and> v = get_prop cachedOptions key)))"

text \<open>The loop, which an exception leaves: the result is then the exception and the
  heap as it is at that point.\<close>

fun merge_keys ::
  "obj \<Rightarrow> addr \<Rightarrow> addr option \<Rightarrow> jsstring list \<Rightarrow> store \<times> bool
     \<Rightarrow> (error \<times> store) + (store \<times> bool)"
where
  "merge_keys dflt optr cached [] hp = Inr hp"
| "merge_keys dflt optr cached (key # keys) hp =
     (case merge_key dflt optr cached key hp of
        Inl e \<Rightarrow> Inl (e, fst hp)
      | Inr hp' \<Rightarrow> merge_keys dflt optr cached keys hp')"

definition merge_options ::
  "obj \<Rightarrow> addr \<Rightarrow> addr option \<Rightarrow> store \<times> bool \<Rightarrow> (error \<times> store) + (store \<times> bool)"
where
  "merge_options dflt optr cached hp = merge_keys dflt optr cached (map fst dflt) hp"

text \<open>The rewrites of the input that depend on the pair of schemes.\<close>

definition preprocess :: "registry \<Rightarrow> string \<Rightarrow> string \<Rightarrow> jsstring \<Rightarrow> error + jsstring" where
  "preprocess schemes from_name to_name data =
     (if from_name = ''itrans''
      then Inr (itrans_escapes
                  (replace_all (js ''.h'') [] (replace_all (js ''{'' @ [92] @ js ''m+}'') (js ''.h.N'') data)))
      else if from_name = ''tamil_superscripted''
      then (case tamil_class schemes of
              Inl e \<Rightarrow> Inl e
            | Inr C \<Rightarrow> Inr (super_first_from C 0 data))
      else if from_name = ''iast'' \<and> to_name = ''devanagari''
      then Inr (iast_devanagari_pre data)
      else Inr data)"

text \<open>The loop over the shortcuts of the source scheme: \<open>replace\<close> with a string
  pattern, once for each direction.\<close>

definition from_shortcut :: "jsstring \<times> jsstring \<Rightarrow> jsstring \<Rightarrow> jsstring" where
  "from_shortcut ks data =
     replace_first (snd ks) (fst ks)
       (if includes_js (fst ks) (snd ks) then replace_first (fst ks) (snd ks) data else data)"

definition apply_from_shortcuts :: "group \<Rightarrow> jsstring \<Rightarrow> jsstring" where
  "apply_from_shortcuts fromShortcuts data = fold from_shortcut fromShortcuts data"

definition to_shortcut :: "jsstring \<times> jsstring \<Rightarrow> jsstring \<Rightarrow> jsstring" where
  "to_shortcut ks result =
     replace_first (fst ks) (snd ks)
       (if includes_js (snd ks) (fst ks) then replace_first (snd ks) (fst ks) result else result)"

definition apply_to_shortcuts :: "group \<Rightarrow> jsstring \<Rightarrow> jsstring" where
  "apply_to_shortcuts toShortcuts result = fold to_shortcut toShortcuts result"

text \<open>
  \<open>join\<close> converts its separator to a string: \<open>undefined\<close> gives the default separator,
  a comma.
\<close>

definition separator :: "jsval \<Rightarrow> jsstring" where
  "separator v =
     (case v of
        VStr s \<Rightarrow> s
      | VUndefined \<Rightarrow> js '',''
      | VNull \<Rightarrow> js ''null''
      | VBool b \<Rightarrow> (if b then js ''true'' else js ''false'')
      | VRef a \<Rightarrow> js ''[object Object]'')"

text \<open>
  The preferred alternates.  Reading a property of \<open>undefined\<close> or \<open>null\<close> raises a
  TypeError, as does \<open>Object.keys(null)\<close>; \<open>typeof\<close> is \<open>"object"\<close> for a reference and
  for \<open>null\<close>; a property of a boolean or a string reads \<open>undefined\<close> here.
\<close>

definition preferred ::
  "store \<Rightarrow> obj \<Rightarrow> string \<Rightarrow> jsstring \<Rightarrow> error + jsstring"
where
  "preferred h options to_name result =
     (case get_prop options (js ''preferred_alternates'') of
        VUndefined \<Rightarrow> Inl TypeError
      | VNull \<Rightarrow> Inl TypeError
      | VBool b \<Rightarrow> Inr result
      | VStr s \<Rightarrow> Inr result
      | VRef a \<Rightarrow>
         (case get_prop (obj_at h a) (js to_name) of
            VRef k \<Rightarrow>
              Inr (fold (\<lambda>kv r. replace_all (fst kv) (separator (snd kv)) r) (obj_at h k) result)
          | VNull \<Rightarrow> Inl TypeError
          | VUndefined \<Rightarrow> Inr result
          | VBool b \<Rightarrow> Inr result
          | VStr s \<Rightarrow> Inr result))"

text \<open>What follows the engine: the shortcuts of the target, the reordering for
  \<open>tamil_superscripted\<close>, the preferred alternates.\<close>

definition postprocess ::
  "registry \<Rightarrow> store \<Rightarrow> obj \<Rightarrow> string \<Rightarrow> jsstring \<Rightarrow> error + jsstring"
where
  "postprocess schemes h options to_name result =
     (case schemes to_name of
        None \<Rightarrow> Inl TypeError
      | Some toScheme \<Rightarrow>
         (let r1 = (case map_of (groups toScheme) ''shortcuts'' of
                      None \<Rightarrow> result
                    | Some toShortcuts \<Rightarrow> apply_to_shortcuts toShortcuts result)
          in if to_name = ''tamil_superscripted''
             then (case tamil_class schemes of
                     Inl e \<Rightarrow> Inl e
                   | Inr C \<Rightarrow> preferred h options to_name (super_last_from C 0 r1))
             else preferred h options to_name r1))"

text \<open>
  Everything in \<open>Sanscript.t\<close> after the map is chosen.  \<open>None\<close> is a run of the Roman
  engine that does not return.
\<close>

definition translate ::
  "registry \<Rightarrow> store \<Rightarrow> obj \<Rightarrow> string \<Rightarrow> string \<Rightarrow> cmap \<Rightarrow> jsstring
     \<Rightarrow> (error + jsstring) option"
where
  "translate schemes h options from_name to_name cm data =
     (case preprocess schemes from_name to_name data of
        Inl e \<Rightarrow> Some (Inl e)
      | Inr d1 \<Rightarrow>
         (case schemes from_name of
            None \<Rightarrow> Some (Inl TypeError)
          | Some fromScheme \<Rightarrow>
             (let d2 = (case map_of (groups fromScheme) ''shortcuts'' of
                          None \<Rightarrow> d1
                        | Some fromShortcuts \<Rightarrow> apply_from_shortcuts fromShortcuts d1)
              in case (if fromRoman cm then transliterateRoman schemes d2 cm options
                       else Some (transliterateBrahmic schemes d2 cm options)) of
                   None \<Rightarrow> None
                 | Some (Inl e) \<Rightarrow> Some (Inl e)
                 | Some (Inr result) \<Rightarrow> Some (postprocess schemes h options to_name result))))"

text \<open>
  The option object that a call works on and the heap in which it does: the object of
  the caller, or a new empty one.
\<close>

definition options_addr :: "jstate \<Rightarrow> addr option \<Rightarrow> addr" where
  "options_addr st options_arg = (case options_arg of None \<Rightarrow> fresh_addr (heap st) | Some a \<Rightarrow> a)"

definition heap_with_options :: "jstate \<Rightarrow> addr option \<Rightarrow> store" where
  "heap_with_options st options_arg =
     (case options_arg of
        None \<Rightarrow> heap st @ [(fresh_addr (heap st), \<lparr>props = [], level = Extensible\<rparr>)]
      | Some a \<Rightarrow> heap st)"

text \<open>\<open>from\<close>, or the lower-cased name that the detector returns when \<open>from\<close> is
  empty.\<close>

definition source_name :: "jsstring \<Rightarrow> string \<Rightarrow> string" where
  "source_name data from_arg =
     (if from_arg = [] then toLowerCase (case detect data of None \<Rightarrow> [] | Some n \<Rightarrow> n)
      else from_arg)"

text \<open>\<open>hasPriorState\<close> before the options are compared: the cached names are the
  names of the call.\<close>

definition prior_names :: "jstate \<Rightarrow> string \<Rightarrow> string \<Rightarrow> bool" where
  "prior_names st from_name to_name =
     (case cache st of
        None \<Rightarrow> False
      | Some c \<Rightarrow> cache_from c = from_name \<and> cache_to c = to_name)"

text \<open>
  \<open>Sanscript.t(data, from, to, options)\<close>.  \<open>from\<close> is a string, empty to detect;
  \<open>options\<close> is a reference to an object of the heap, or \<open>None\<close> for \<open>null\<close>.  The
  result is the returned string or the exception, with the state after the call;
  the writes to the option object that precede an exception stay.  A write that the
  option object does not take ends the call with its TypeError.  The branch that
  reads the map of an empty cache is never taken: \<open>hasPriorState\<close> is false then.
\<close>

definition t ::
  "jstate \<Rightarrow> jsstring \<Rightarrow> string \<Rightarrow> string \<Rightarrow> addr option \<Rightarrow> ((error + jsstring) \<times> jstate) option"
where
  "t st data from_arg to_name options_arg =
     (let from_name = source_name data from_arg;
          optr = options_addr st options_arg
      in case merge_options (defaults st) optr (map_option cache_options (cache st))
                (heap_with_options st options_arg, prior_names st from_name to_name) of
           Inl eh \<Rightarrow> Some (Inl (fst eh), st\<lparr>heap := snd eh\<rparr>)
         | Inr hp \<Rightarrow>
            (let st1 = st\<lparr>heap := fst hp\<rparr>
             in case (if snd hp
                      then (case cache st of None \<Rightarrow> Inl TypeError | Some c \<Rightarrow> Inr (cache_map c))
                      else makeMap (sanscript_schemes st) from_name to_name optr) of
                  Inl e \<Rightarrow> Some (Inl e, st1)
                | Inr cm \<Rightarrow>
                   (let st2 = (if snd hp then st1
                               else st1\<lparr>cache := Some \<lparr>cache_from = from_name, cache_map = cm,
                                                       cache_options = optr, cache_to = to_name\<rparr>\<rparr>)
                    in case translate (sanscript_schemes st) (heap st2) (obj_at (heap st2) optr)
                              from_name to_name cm data of
                         None \<Rightarrow> None
                       | Some r \<Rightarrow> Some (r, st2))))"

text \<open>The same call with the cache emptied first, so that the map is built anew.\<close>

definition t_rebuilt ::
  "jstate \<Rightarrow> jsstring \<Rightarrow> string \<Rightarrow> string \<Rightarrow> addr option \<Rightarrow> ((error + jsstring) \<times> jstate) option"
where
  "t_rebuilt st data from_arg to_name options_arg =
     t (st\<lparr>cache := None\<rparr>) data from_arg to_name options_arg"

section \<open>Audio numbers\<close>

text \<open>
  The marker is U+25B7 (9655).  \<open>RE_AUDIO_WITH_NUM\<close> is \<open>/M\d+[a-z]?|M\d*/g\<close> with \<open>M\<close>
  the marker: at a marker it matches the digits that follow and, when there is at least
  one digit, one lower-case letter after them.  \<open>audio_match_len\<close> is the length of
  the match after the marker.
\<close>

definition audio_marker :: jschar where
  "audio_marker = 9655"

definition is_lower :: "jschar \<Rightarrow> bool" where
  "is_lower c = (97 \<le> c \<and> c \<le> 122)"

definition audio_match_len :: "jsstring \<Rightarrow> nat" where
  "audio_match_len s =
     (let ds = takeWhile is_digit s
      in if ds = [] then 0
         else length ds + (case drop (length ds) s of [] \<Rightarrow> 0 | c # r \<Rightarrow> if is_lower c then 1 else 0))"

text \<open>\<open>text.split(RE_AUDIO_WITH_NUM)\<close>: the segments between the matches.  The counter
  is the number of code units of the current match still to skip.\<close>

fun split_audio_from :: "nat \<Rightarrow> jsstring \<Rightarrow> jsstring list" where
  "split_audio_from k [] = [[]]"
| "split_audio_from (Suc k) (c # s) = split_audio_from k s"
| "split_audio_from 0 (c # s) =
     (if c = audio_marker then [] # split_audio_from (audio_match_len s) s
      else (case split_audio_from 0 s of
              [] \<Rightarrow> [[c]]
            | seg # segs \<Rightarrow> (c # seg) # segs))"

text \<open>\<open>text.replace(RE_AUDIO_WITH_NUM, M)\<close>.\<close>

fun strip_audio_from :: "nat \<Rightarrow> jsstring \<Rightarrow> jsstring" where
  "strip_audio_from k [] = []"
| "strip_audio_from (Suc k) (c # s) = strip_audio_from k s"
| "strip_audio_from 0 (c # s) =
     (if c = audio_marker then c # strip_audio_from (audio_match_len s) s
      else c # strip_audio_from 0 s)"

text \<open>
  The number that the callback reads at \<open>idx\<close>, just after a marker: when the code
  unit there is a digit, that digit and every following code unit in \<open>[0-9a-z]\<close>;
  otherwise nothing.
\<close>

definition scan_num :: "jsstring \<Rightarrow> nat \<Rightarrow> jsstring" where
  "scan_num text idx =
     (if idx < length text \<and> is_digit (text ! idx)
      then takeWhile (\<lambda>c. is_digit c \<or> is_lower c) (drop idx text)
      else [])"

text \<open>The \<open>forEach\<close> over the segments, with the running index \<open>idx\<close> and the array
  \<open>audios\<close> that it extends.\<close>

fun pick_loop :: "jsstring \<Rightarrow> jsstring list \<Rightarrow> nat \<Rightarrow> jsstring list \<Rightarrow> jsstring list" where
  "pick_loop text [] idx audios = audios"
| "pick_loop text (seg # segs) idx audios =
     (if idx + length seg < length text
      then pick_loop text segs
             (idx + length seg + 1 + length (scan_num text (idx + length seg + 1)))
             (audios @ [scan_num text (idx + length seg + 1)])
      else pick_loop text segs (idx + length seg) audios)"

text \<open>\<open>pickAudioNumbers\<close> returns the stripped text; the array it was given is returned
  with it, extended.\<close>

definition pickAudioNumbers :: "jsstring list \<Rightarrow> jsstring \<Rightarrow> jsstring list \<times> jsstring" where
  "pickAudioNumbers audios text =
     (pick_loop text (split_audio_from 0 text) 0 audios, strip_audio_from 0 text)"

text \<open>\<open>text.replace(/M/g, (s) => s + (audios[index++] || ''))\<close>.\<close>

fun refillAudioNumbers :: "jsstring list \<Rightarrow> nat \<Rightarrow> jsstring \<Rightarrow> jsstring" where
  "refillAudioNumbers audios index [] = []"
| "refillAudioNumbers audios index (c # s) =
     (if c = audio_marker
      then c # (if index < length audios then audios ! index else [])
             @ refillAudioNumbers audios (index + 1) s
      else c # refillAudioNumbers audios index s)"

section \<open>A scheme with a shortcut\<close>

text \<open>The small Roman scheme with one shortcut: the long form \<open>kh\<close> may be written
  \<open>K\<close>.\<close>

definition ex_hk_short :: scheme where
  "ex_hk_short = ex_hk\<lparr>groups := groups ex_hk @ [(''shortcuts'', [(js ''kh'', js ''K'')])]\<rparr>"

definition ex_schemes_short :: registry where
  "ex_schemes_short = [''hk'' \<mapsto> ex_hk_short, ''devanagari'' \<mapsto> ex_deva]"

section \<open>Calls of Sanscript.t in sequence\<close>

text \<open>The merge of the defaults into the option object, computed without the cache,
  and the heap after it.\<close>

definition merged :: "jstate \<Rightarrow> addr option \<Rightarrow> (error \<times> store) + (store \<times> bool)" where
  "merged st options_arg =
     merge_options (defaults st) (options_addr st options_arg) None
       (heap_with_options st options_arg, False)"

definition merged_heap :: "jstate \<Rightarrow> addr option \<Rightarrow> store" where
  "merged_heap st options_arg =
     (case merged st options_arg of Inl eh \<Rightarrow> snd eh | Inr hp \<Rightarrow> fst hp)"

text \<open>
  The result of a call whose map is built from scratch by \<open>makeMap\<close>: the reference that
  a call served from the cache is compared with.
\<close>

definition fresh_result ::
  "jstate \<Rightarrow> jsstring \<Rightarrow> string \<Rightarrow> string \<Rightarrow> addr option \<Rightarrow> (error + jsstring) option"
where
  "fresh_result st data from_arg to_name options_arg =
     (case merged st options_arg of
        Inl eh \<Rightarrow> Some (Inl (fst eh))
      | Inr hp \<Rightarrow>
         (case makeMap (sanscript_schemes st) (source_name data from_arg) to_name () of
            Inl e \<Rightarrow> Some (Inl e)
          | Inr cm \<Rightarrow>
              translate (sanscript_schemes st) (fst hp)
                (obj_at (fst hp) (options_addr st options_arg))
                (source_name data from_arg) to_name cm data))"

text \<open>The cached map is the map that \<open>makeMap\<close> builds for the cached pair of names
  from the registry of the state.\<close>

definition cache_ok :: "jstate \<Rightarrow> bool" where
  "cache_ok st =
     (case cache st of
        None \<Rightarrow> True
      | Some c \<Rightarrow> makeMap (sanscript_schemes st) (cache_from c) (cache_to c) () = Inr (cache_map c))"

text \<open>
  A call of \<open>Sanscript.t\<close> by a client: before the call the client may have rewritten
  the heap in any way (\<open>call_writes\<close>), for instance the option object of an earlier
  call, or frozen an object.  \<open>run_calls\<close> runs a sequence of calls with a given implementation of \<open>t\<close> and
  collects the results; the registry is not changed between the calls.
\<close>

record call =
  call_writes :: "store \<Rightarrow> store"
  call_data :: jsstring
  call_from :: string
  call_to :: string
  call_options :: "addr option"

fun run_calls ::
  "(jstate \<Rightarrow> jsstring \<Rightarrow> string \<Rightarrow> string \<Rightarrow> addr option \<Rightarrow> ((error + jsstring) \<times> jstate) option)
     \<Rightarrow> jstate \<Rightarrow> call list \<Rightarrow> (error + jsstring) list option"
where
  "run_calls f st [] = Some []"
| "run_calls f st (c # cs) =
     (case f (st\<lparr>heap := call_writes c (heap st)\<rparr>) (call_data c) (call_from c) (call_to c)
             (call_options c) of
        None \<Rightarrow> None
      | Some rs \<Rightarrow> map_option ((#) (fst rs)) (run_calls f (snd rs) cs))"



section \<open>The tokens of a compiled map\<close>

text \<open>
  The source tokens that the loop over the groups records: for every entry of a group
  that is not one of the three metadata properties and that the target scheme has
  too, and whose key the target group has, the rendering \<open>F\<close> and its alternates.
\<close>

definition entry_tokens ::
  "(jsstring \<times> jsstring list) list \<Rightarrow> group \<Rightarrow> jsstring \<times> jsstring \<Rightarrow> jsstring list"
where
  "entry_tokens alternates_of toGroup kF =
     (case map_of toGroup (fst kF) of
        None \<Rightarrow> []
      | Some T0 \<Rightarrow> snd kF # (case map_of alternates_of (snd kF) of None \<Rightarrow> [] | Some a \<Rightarrow> a))"

definition tokens_of_group :: "scheme \<Rightarrow> scheme \<Rightarrow> string \<times> group \<Rightarrow> jsstring list" where
  "tokens_of_group fromScheme toScheme g =
     (if fst g \<in> set [''alternates'', ''accented_vowel_alternates'', ''isRomanScheme''] then []
      else case map_of (groups toScheme) (fst g) of
             None \<Rightarrow> []
           | Some toGroup \<Rightarrow>
               concat (map (entry_tokens
                              (case alternates fromScheme of None \<Rightarrow> [] | Some a \<Rightarrow> a) toGroup)
                         (snd g)))"

definition group_tokens :: "scheme \<Rightarrow> scheme \<Rightarrow> jsstring list" where
  "group_tokens fromScheme toScheme =
     concat (map (tokens_of_group fromScheme toScheme) (groups fromScheme))"

text \<open>The tokens among them that go to \<open>letters\<close>: those of the groups other than
  \<open>vowel_marks\<close> and \<open>virama\<close>.\<close>

definition letter_group :: "string \<times> group \<Rightarrow> bool" where
  "letter_group g = (fst g \<noteq> ''vowel_marks'' \<and> fst g \<noteq> ''virama'')"

definition letter_tokens :: "scheme \<Rightarrow> scheme \<Rightarrow> jsstring list" where
  "letter_tokens fromScheme toScheme =
     concat (map (tokens_of_group fromScheme toScheme) (filter letter_group (groups fromScheme)))"


text \<open>
  An entry of \<open>accented_vowel_alternates\<close> has a missing base when it has a synonym and
  its key without the last code unit is not a key of \<open>letters\<close> when the entry is
  reached; \<open>K\<close> is the set of the keys of \<open>letters\<close>, which grows by the synonyms of
  the entries before.
\<close>

fun missing_base :: "jsstring set \<Rightarrow> (jsstring \<times> jsstring list) list \<Rightarrow> bool" where
  "missing_base K [] = False"
| "missing_base K (e # es) =
     ((snd e \<noteq> [] \<and> butlast (fst e) \<notin> K) \<or> missing_base (K \<union> set (snd e)) es)"

definition scheme_missing_base :: "scheme \<Rightarrow> scheme \<Rightarrow> bool" where
  "scheme_missing_base fromScheme toScheme =
     (case accented_vowel_alternates fromScheme of
        None \<Rightarrow> False
      | Some ava \<Rightarrow> missing_base (set (letter_tokens fromScheme toScheme)) ava)"

section \<open>Schemes with accented vowels\<close>

text \<open>
  Two small Roman schemes with the vowel a and the accent U+0951 written as an
  apostrophe.  In the first the accented vowel \<open>a'\<close> has the synonym \<open>a/''\<close>, of four
  code units.  In the second the accented vowel \<open>e'\<close> has a synonym but the scheme has
  no vowel \<open>e\<close>.  The third scheme shares no key with the Devanagari one.
\<close>

definition ex_accent_long :: scheme where
  "ex_accent_long =
     \<lparr>groups =
        [(''vowels'', [([2309], js ''a'')]),
         (''virama'', [([2381], [])]),
         (''accents'', [([2385], [39])])],
      alternates = None,
      accented_vowel_alternates = Some [([97, 39], [[97, 47, 39, 39]])],
      isRomanScheme = True\<rparr>"

definition ex_accent_missing :: scheme where
  "ex_accent_missing =
     \<lparr>groups =
        [(''vowels'', [([2309], js ''a'')]),
         (''virama'', [([2381], [])]),
         (''accents'', [([2385], [39])])],
      alternates = None,
      accented_vowel_alternates = Some [([101, 39], [[233]])],
      isRomanScheme = True\<rparr>"

definition ex_disjoint :: scheme where
  "ex_disjoint =
     \<lparr>groups = [(''vowels'', [([2400], js ''RR'')])],
      alternates = None,
      accented_vowel_alternates = None,
      isRomanScheme = True\<rparr>"

definition ex_schemes_accent :: registry where
  "ex_schemes_accent =
     [''long'' \<mapsto> ex_accent_long, ''missing'' \<mapsto> ex_accent_missing,
      ''disjoint'' \<mapsto> ex_disjoint, ''devanagari'' \<mapsto> ex_deva]"

section \<open>Properties of the detector\<close>

lemmas detect_defs = detect_def detect_roman_def js_def BRAHMIC_FIRST_CODE_POINT_def BRAHMIC_LAST_CODE_POINT_def RE_IAST_OR_KOLKATA_ONLY_def RE_KOLKATA_ONLY_def RE_ITRANS_ONLY_def RE_SLP1_ONLY_def RE_VELTHUIS_ONLY_def RE_ITRANS_OR_VELTHUIS_ONLY_def re_alt_def lit_def cls_def word_char_def Scheme_def SCHEMES_def
lemma BLOCKS_eq: "BLOCKS = [(''Malayalam'', 3328), (''Kannada'', 3200), (''Telugu'', 3072),
  (''Tamil'', 2944), (''Oriya'', 2816), (''Gujarati'', 2688),
  (''Gurmukhi'', 2560), (''Bengali'', 2432), (''Devanagari'', 2304)]"
  by (simp add: BLOCKS_def SCHEMES_def List.map_filter_def)

lemma find_block_greatest:
  assumes "2304 \<le> code"
  shows "\<exists>n. find_block BLOCKS code = Some n \<and> greatest_block_below code n"
  using assms unfolding BLOCKS_eq greatest_block_below_def enumerated_blocks_def
  by simp

lemma detect_brahmic_find:
  "detect_brahmic text =
     (case List.find in_brahmic_range text of None \<Rightarrow> None | Some c \<Rightarrow> find_block BLOCKS c)"
proof (induction "text")
  case Nil
  show ?case by simp
next
  case (Cons L rest)
  show ?case
  proof (cases "in_brahmic_range L")
    case True
    then have "2304 \<le> L" by (simp add: in_brahmic_range_def)
    from find_block_greatest [OF this] obtain n where "find_block BLOCKS L = Some n" by blast
    with True show ?thesis
      by (simp add: in_brahmic_range_def BRAHMIC_FIRST_CODE_POINT_def BRAHMIC_LAST_CODE_POINT_def)
  next
    case False
    with Cons show ?thesis
      by (auto simp: in_brahmic_range_def BRAHMIC_FIRST_CODE_POINT_def BRAHMIC_LAST_CODE_POINT_def)
  qed
qed

lemma Scheme_names:
  "Scheme ''Kolkata'' = Some ''Kolkata''" "Scheme ''IAST'' = Some ''IAST''"
  "Scheme ''ITRANS'' = Some ''ITRANS''" "Scheme ''SLP1'' = Some ''SLP1''"
  "Scheme ''Velthuis'' = Some ''Velthuis''" "Scheme ''HK'' = Some ''HK''"
  by (simp_all add: Scheme_def SCHEMES_def)

lemma detect_roman_cascade:
  "detect_roman text =
     Some (if RE_IAST_OR_KOLKATA_ONLY text
      then (if RE_KOLKATA_ONLY text then ''Kolkata'' else ''IAST'')
      else if RE_ITRANS_ONLY text then ''ITRANS''
      else if RE_SLP1_ONLY text then ''SLP1''
      else if RE_VELTHUIS_ONLY text then ''Velthuis''
      else if RE_ITRANS_OR_VELTHUIS_ONLY text then ''ITRANS''
      else ''HK'')"
  by (simp add: detect_roman_def Scheme_names)

lemma greatest_block_name: "greatest_block_below code n \<Longrightarrow> n \<in> fst ` set SCHEMES"
  unfolding greatest_block_below_def enumerated_blocks_def SCHEMES_def by auto

text \<open>
  Claim C5.  At the first code unit in the Brahmic range, \<open>detect\<close> returns the name of
  the enumerated block with the greatest start at or below it; when there is none, it
  returns the result of the Roman cascade, in the order IAST or Kolkata, ITRANS, SLP1,
  Velthuis, ITRANS or Velthuis, HK; it always returns a name of \<open>SCHEMES\<close>; and the
  four examples of the specification evaluate as stated (the last one with and without
  the backslash, which a JavaScript string literal drops).
\<close>

theorem detect_spec:
  "(\<forall>c. List.find in_brahmic_range text = Some c \<longrightarrow>
        (\<exists>n. detect text = Some n \<and> greatest_block_below c n))
   \<and> (List.find in_brahmic_range text = None \<longrightarrow>
        detect text =
          Some (if RE_IAST_OR_KOLKATA_ONLY text
                then (if RE_KOLKATA_ONLY text then ''Kolkata'' else ''IAST'')
                else if RE_ITRANS_ONLY text then ''ITRANS''
                else if RE_SLP1_ONLY text then ''SLP1''
                else if RE_VELTHUIS_ONLY text then ''Velthuis''
                else if RE_ITRANS_OR_VELTHUIS_ONLY text then ''ITRANS''
                else ''HK''))
   \<and> (\<exists>n. detect text = Some n \<and> n \<in> fst ` set SCHEMES)
   \<and> detect [2343, 2352, 2381, 2350] = Some ''Devanagari''
   \<and> detect (js ''dharma'') = Some ''HK''
   \<and> detect (js ''dharma'' @ [7717]) = Some ''IAST''
   \<and> detect (js ''.a'') = Some ''ITRANS''
   \<and> detect (92 # js ''.a'') = Some ''ITRANS''"
proof -
  have a: "\<exists>n. detect text = Some n \<and> greatest_block_below c n"
    if "List.find in_brahmic_range text = Some c" for c
  proof -
    from that have "in_brahmic_range c" by (auto simp: find_Some_iff)
    then have "2304 \<le> c" by (simp add: in_brahmic_range_def)
    from find_block_greatest [OF this] that show ?thesis
      by (auto simp: detect_def detect_brahmic_find)
  qed
  have b: "detect text = detect_roman text" if "List.find in_brahmic_range text = None"
    using that by (simp add: detect_def detect_brahmic_find)
  have c: "\<exists>n. detect text = Some n \<and> n \<in> fst ` set SCHEMES"
  proof (cases "List.find in_brahmic_range text")
    case None
    from b [OF this] show ?thesis
      by (simp add: detect_roman_cascade SCHEMES_def)
  next
    case (Some c)
    from a [OF this] show ?thesis by (blast intro: greatest_block_name)
  qed
  have d: "detect [2343, 2352, 2381, 2350] = Some ''Devanagari''"
    by (simp add: detect_defs BLOCKS_eq)
  have e: "detect (js ''dharma'') = Some ''HK''" by (simp add: detect_defs)
  have f: "detect (js ''dharma'' @ [7717]) = Some ''IAST''" by (simp add: detect_defs)
  have g: "detect (js ''.a'') = Some ''ITRANS''" by (simp add: detect_defs)
  have h: "detect (92 # js ''.a'') = Some ''ITRANS''" by (simp add: detect_defs)
  from a b c d e f g h show ?thesis by (simp add: detect_roman_cascade)
qed

text \<open>The theorem at a Gujarati code unit after an ASCII one, and at a Roman text.\<close>

theorem detect_spec_witness:
  "List.find in_brahmic_range [100, 2700, 2305] = Some 2700
   \<and> detect [100, 2700, 2305] = Some ''Gujarati''
   \<and> greatest_block_below 2700 ''Gujarati''
   \<and> List.find in_brahmic_range (js ''aa'') = None
   \<and> detect (js ''aa'') = Some ''ITRANS''"
proof -
  have f: "List.find in_brahmic_range [100, 2700, 2305] = Some 2700"
    by (simp add: in_brahmic_range_def)
  have g: "List.find in_brahmic_range (js ''aa'') = None"
    by (simp add: in_brahmic_range_def js_def)
  have d: "detect [100, 2700, 2305] = Some ''Gujarati''"
    by (simp add: detect_defs BLOCKS_eq)
  from detect_spec [of "[100, 2700, 2305]"] f d have "greatest_block_below 2700 ''Gujarati''"
    by auto
  moreover from detect_spec [of "js ''aa''"] g have "detect (js ''aa'') = Some ''ITRANS''"
    by (simp add: detect_defs)
  ultimately show ?thesis using f g d by simp
qed

section \<open>Properties of the Roman engine\<close>

declare inner.simps [simp del]

lemma had_after_snoc: "had_after cm had (ss @ [s]) = next_had cm (had_after cm had ss) s"
  by (simp add: had_after_def)

lemma steps_ok_snoc:
  "steps_ok cm syn mx had (ss @ [s]) =
     (steps_ok cm syn mx had ss \<and> step_ok cm syn mx (had_after cm had ss) s)"
  by (induction ss arbitrary: had) (auto simp: had_after_def)

lemma take_js_hashes: "take n xs = js ''##'' \<Longrightarrow> length (drop 2 xs) < length xs"
  by (cases xs) (auto simp: js_def)

lemma length_js_hashes: "take n xs = js ''##'' \<Longrightarrow> 2 \<le> n"
proof -
  assume "take n xs = js ''##''"
  then have "length (take n xs) = 2" by (simp add: js_def)
  then show ?thesis by simp
qed

lemma inner_toggle:
  "j < mx \<Longrightarrow> is_toggle st (take (mx - j) (tokenBuffer st)) \<Longrightarrow>
   inner cm sk sy mx j st =
     record_step (take (mx - j) (tokenBuffer st)) Toggle [] (j + 1)
       (st\<lparr>toggledTrans := \<not> toggledTrans st, tokenBuffer := drop 2 (tokenBuffer st)\<rparr>)"
  by (subst inner.simps) (simp add: Let_def)

lemma inner_matched:
  "j < mx \<Longrightarrow> \<not> is_toggle st (take (mx - j) (tokenBuffer st)) \<Longrightarrow>
   map_of (letters cm) (take (mx - j) (tokenBuffer st)) \<noteq> None \<Longrightarrow>
   \<not> truthy (sgml_next sk st (take (mx - j) (tokenBuffer st))) \<Longrightarrow> \<not> toggledTrans st \<Longrightarrow>
   inner cm sk sy mx j st =
     record_step (take (mx - j) (tokenBuffer st)) Matched
       (matched_pushes cm (hadConsonant st) (take (mx - j) (tokenBuffer st))) (j + 1)
       (st\<lparr>skippingSGML := sgml_next sk st (take (mx - j) (tokenBuffer st)),
           hadConsonant := (if toRoman cm then hadConsonant st
                            else map_of (consonants cm) (take (mx - j) (tokenBuffer st)) \<noteq> None),
           tokenBuffer := drop (mx - j) (tokenBuffer st)\<rparr>)"
  by (subst inner.simps) (simp add: Let_def)

lemma inner_unmatched:
  "j < mx \<Longrightarrow> \<not> is_toggle st (take (mx - j) (tokenBuffer st)) \<Longrightarrow>
   \<not> (map_of (letters cm) (take (mx - j) (tokenBuffer st)) \<noteq> None \<and>
      \<not> (truthy (sgml_next sk st (take (mx - j) (tokenBuffer st))) \<or> toggledTrans st)) \<Longrightarrow>
   j = mx - 1 \<Longrightarrow>
   inner cm sk sy mx j st =
     record_step (take (mx - j) (tokenBuffer st)) Unmatched
       ((if hadConsonant st \<and> \<not> truthy sy then [Virama] else [])
          @ [Text (take (mx - j) (tokenBuffer st))]) (j + 1)
       (st\<lparr>skippingSGML := sgml_next sk st (take (mx - j) (tokenBuffer st)),
           hadConsonant := False, tokenBuffer := drop 1 (tokenBuffer st)\<rparr>)"
  by (subst inner.simps) (auto simp: Let_def)

lemma inner_next:
  "j < mx \<Longrightarrow> \<not> is_toggle st (take (mx - j) (tokenBuffer st)) \<Longrightarrow>
   \<not> (map_of (letters cm) (take (mx - j) (tokenBuffer st)) \<noteq> None \<and>
      \<not> (truthy (sgml_next sk st (take (mx - j) (tokenBuffer st))) \<or> toggledTrans st)) \<Longrightarrow>
   j \<noteq> mx - 1 \<Longrightarrow>
   inner cm sk sy mx j st =
     inner cm sk sy mx (j + 1) (st\<lparr>skippingSGML := sgml_next sk st (take (mx - j) (tokenBuffer st))\<rparr>)"
  by (subst inner.simps) (auto simp: Let_def)


lemma record_step_props:
  assumes "steps st0 = steps st" and "buf st0 = buf st"
    and "step_ok cm syn mx (hadConsonant st) \<lparr>token = tok, kind = k, pushes = ps, tries = n\<rparr>"
    and "hadConsonant st0 = next_had cm (hadConsonant st) \<lparr>token = tok, kind = k, pushes = ps, tries = n\<rparr>"
    and "length (tokenBuffer st0) < length (tokenBuffer st)"
  shows "\<exists>s. steps (record_step tok k ps n st0) = steps st @ [s]
          \<and> buf (record_step tok k ps n st0) = buf st @ pushes s
          \<and> step_ok cm syn mx (hadConsonant st) s
          \<and> hadConsonant (record_step tok k ps n st0) = next_had cm (hadConsonant st) s
          \<and> length (tokenBuffer (record_step tok k ps n st0)) < length (tokenBuffer st)"
  using assms by (simp add: record_step_def)

lemma inner_step:
  assumes "j < mx" and "tokenBuffer st \<noteq> []"
  shows "\<exists>s. steps (inner cm sk sy mx j st) = steps st @ [s]
          \<and> buf (inner cm sk sy mx j st) = buf st @ pushes s
          \<and> step_ok cm (truthy sy) mx (hadConsonant st) s
          \<and> hadConsonant (inner cm sk sy mx j st) = next_had cm (hadConsonant st) s
          \<and> length (tokenBuffer (inner cm sk sy mx j st)) < length (tokenBuffer st)"
  using assms
proof (induction "mx - j" arbitrary: j st rule: less_induct)
  case less
  let ?tok = "take (mx - j) (tokenBuffer st)"
  let ?st1 = "st\<lparr>skippingSGML := sgml_next sk st ?tok\<rparr>"
  from less.prems have len: "length ?tok \<le> mx" and tr: "Suc j \<le> mx" by simp_all
  from less.prems have dl: "length (drop (mx - j) (tokenBuffer st)) < length (tokenBuffer st)"
    by (cases "tokenBuffer st") auto
  from less.prems have d1: "length (drop 1 (tokenBuffer st)) < length (tokenBuffer st)"
    by (cases "tokenBuffer st") auto
  show ?case
  proof (cases "is_toggle st ?tok")
    case True
    then have tk: "?tok = js ''##''" by (simp add: is_toggle_def)
    then have d2: "length (drop 2 (tokenBuffer st)) < length (tokenBuffer st)"
      by (rule take_js_hashes)
    from tk len have l2: "length (js ''##'') \<le> mx" by simp
    show ?thesis
      unfolding inner_toggle [OF less.prems(1) True] tk
      by (rule record_step_props) (use d2 l2 tr in \<open>simp_all add: step_ok_def next_had_def\<close>)
  next
    case notoggle: False
    show ?thesis
    proof (cases "map_of (letters cm) ?tok \<noteq> None \<and>
        \<not> (truthy (sgml_next sk st ?tok) \<or> toggledTrans st)")
      case True
      then have m: "map_of (letters cm) ?tok \<noteq> None"
        and n1: "\<not> truthy (sgml_next sk st ?tok)" and n2: "\<not> toggledTrans st" by simp_all
      show ?thesis
        unfolding inner_matched [OF less.prems(1) notoggle m n1 n2]
        by (rule record_step_props)
           (use dl len tr m in \<open>simp_all add: step_ok_def next_had_def del: length_drop length_take\<close>)
    next
      case nomatch: False
      show ?thesis
      proof (cases "j = mx - 1")
        case True
        with less.prems have one: "mx - j = 1" by simp
        from less.prems have len1: "length (take 1 (tokenBuffer st)) = 1"
          by (cases "tokenBuffer st") auto
        show ?thesis
          unfolding inner_unmatched [OF less.prems(1) notoggle nomatch True] one
          by (rule record_step_props)
             (use d1 len1 tr less.prems in
               \<open>simp_all add: step_ok_def next_had_def del: length_drop length_take\<close>)
      next
        case False
        with less.prems have j1: "j + 1 < mx" and dec: "mx - (j + 1) < mx - j" by simp_all
        from less.prems have ne: "tokenBuffer ?st1 \<noteq> []" by simp
        from less.hyps [OF dec j1 ne] show ?thesis
          unfolding inner_next [OF less.prems(1) notoggle nomatch False] by simp
      qed
    qed
  qed
qed

lemma inner_idle: "\<not> j < mx \<Longrightarrow> inner cm sk sy mx j st = st"
  by (subst inner.simps) simp

lemma rinv_step:
  assumes inv: "rinv cm syn mx st"
    and s: "steps st' = steps st @ [s]" "buf st' = buf st @ pushes s"
      "step_ok cm syn mx (hadConsonant st) s"
      "hadConsonant st' = next_had cm (hadConsonant st) s"
    and b: "tokenBuffer st' = [] \<or> 1 \<le> mx"
  shows "rinv cm syn mx st'"
  using assms by (simp add: rinv_def steps_ok_snoc had_after_snoc)

text \<open>One iteration keeps the invariant and decreases the measure of the loop.\<close>

lemma roman_iter_inv:
  assumes inv: "rinv cm (truthy sy) mx st"
    and go: "i < length data \<or> tokenBuffer st \<noteq> []"
  shows "rinv cm (truthy sy) mx (roman_iter cm sk sy mx data i st)
       \<and> 2 * (length data - Suc i) + length (tokenBuffer (roman_iter cm sk sy mx data i st))
           < 2 * (length data - i) + length (tokenBuffer st)"
proof -
  from inv have bm: "tokenBuffer st = [] \<or> 1 \<le> mx" by (simp add: rinv_def)
  let ?st1 = "st\<lparr>tokenBuffer := tokenBuffer st @ [data ! i]\<rparr>"
  have inv1: "rinv cm (truthy sy) mx ?st1" if "length (tokenBuffer st) < mx"
    using inv that by (simp add: rinv_def)
  show ?thesis
  proof (cases "int mx - int (length (tokenBuffer st)) > 0 \<and> i < length data")
    case fill: True
    then have lt: "length (tokenBuffer st) < mx" and i: "i < length data" by simp_all
    show ?thesis
    proof (cases "int mx - int (length (tokenBuffer st)) > 1")
      case True
      with fill have "roman_iter cm sk sy mx data i st = ?st1"
        by (simp add: roman_iter_def Let_def)
      with inv1 [OF lt] i show ?thesis by simp
    next
      case False
      with fill have eq: "roman_iter cm sk sy mx data i st = inner cm sk sy mx 0 ?st1"
        by (simp add: roman_iter_def Let_def)
      from lt have mx: "0 < mx" by simp
      have ne: "tokenBuffer ?st1 \<noteq> []" by simp
      from inner_step [OF mx ne, of cm sk sy] obtain s where
        s: "steps (inner cm sk sy mx 0 ?st1) = steps ?st1 @ [s]"
           "buf (inner cm sk sy mx 0 ?st1) = buf ?st1 @ pushes s"
           "step_ok cm (truthy sy) mx (hadConsonant ?st1) s"
           "hadConsonant (inner cm sk sy mx 0 ?st1) = next_had cm (hadConsonant ?st1) s"
           "length (tokenBuffer (inner cm sk sy mx 0 ?st1)) < length (tokenBuffer ?st1)"
        by blast
      from mx have "tokenBuffer (inner cm sk sy mx 0 ?st1) = [] \<or> 1 \<le> mx" by simp
      from rinv_step [OF inv1 [OF lt] s(1-4) this] s(5) i show ?thesis
        unfolding eq by simp
    qed
  next
    case nofill: False
    then have eq: "roman_iter cm sk sy mx data i st = inner cm sk sy mx 0 st"
      by (auto simp: roman_iter_def Let_def)
    show ?thesis
    proof (cases "tokenBuffer st = []")
      case True
      with go have i: "i < length data" by simp
      with nofill True have "mx = 0" by simp
      then have "inner cm sk sy mx 0 st = st" by (simp add: inner_idle)
      with inv i show ?thesis unfolding eq by simp
    next
      case ne: False
      with bm have mx: "0 < mx" by simp
      from inner_step [OF mx ne, of cm sk sy] obtain s where
        s: "steps (inner cm sk sy mx 0 st) = steps st @ [s]"
           "buf (inner cm sk sy mx 0 st) = buf st @ pushes s"
           "step_ok cm (truthy sy) mx (hadConsonant st) s"
           "hadConsonant (inner cm sk sy mx 0 st) = next_had cm (hadConsonant st) s"
           "length (tokenBuffer (inner cm sk sy mx 0 st)) < length (tokenBuffer st)"
        by blast
      from mx have "tokenBuffer (inner cm sk sy mx 0 st) = [] \<or> 1 \<le> mx" by simp
      from rinv_step [OF inv s(1-4) this] s(5) show ?thesis
        unfolding eq by simp
    qed
  qed
qed

text \<open>The outer loop returns from every state that satisfies the invariant.\<close>

lemma roman_loop_total:
  assumes "rinv cm (truthy sy) mx st"
  shows "\<exists>st'. roman_loop cm sk sy mx data i st = Some st' \<and> rinv cm (truthy sy) mx st'
           \<and> tokenBuffer st' = []"
  using assms
proof (induction "2 * (length data - i) + length (tokenBuffer st)" arbitrary: i st rule: less_induct)
  case less
  show ?case
  proof (cases "i < length data \<or> tokenBuffer st \<noteq> []")
    case True
    from roman_iter_inv [OF less.prems True, of sk]
    have inv': "rinv cm (truthy sy) mx (roman_iter cm sk sy mx data i st)"
      and dec: "2 * (length data - Suc i) + length (tokenBuffer (roman_iter cm sk sy mx data i st))
           < 2 * (length data - i) + length (tokenBuffer st)" by simp_all
    from less.hyps [OF _ inv', of "Suc i"] dec
    obtain st' where "roman_loop cm sk sy mx data (Suc i) (roman_iter cm sk sy mx data i st) = Some st'"
      "rinv cm (truthy sy) mx st'" "tokenBuffer st' = []" by auto
    with True show ?thesis by (subst roman_loop.simps) simp
  next
    case False
    with less.prems show ?thesis by (subst roman_loop.simps) simp
  qed
qed

lemma rinv_init: "rinv cm syn mx roman_init"
  by (simp add: rinv_def roman_init_def had_after_def)

lemma roman_run_total:
  "\<exists>st. roman_run cm options data = Some st
        \<and> rinv cm (truthy (get_prop options (js ''syncope''))) (max_len cm) st
        \<and> tokenBuffer st = []"
  unfolding roman_run_def by (rule roman_loop_total) (rule rinv_init)

lemma steps_ok_bounds:
  "steps_ok cm syn mx had ss \<Longrightarrow>
     list_all (\<lambda>s. tries s \<le> mx) ss \<and> list_all (\<lambda>s. length (token s) \<le> mx) ss"
  by (induction ss arbitrary: had) (auto simp: step_ok_def)




lemma transliterateRoman_total: "\<exists>r. transliterateRoman schemes data cm options = Some r"
proof -
  from roman_run_total [of cm options data] obtain st where "roman_run cm options data = Some st"
    by blast
  then show ?thesis by (simp add: transliterateRoman_def Let_def)
qed

lemma transliterateRoman_Some [simp]: "transliterateRoman schemes data cm options \<noteq> None"
  using transliterateRoman_total [of schemes data cm options] by auto

lemma translate_Some [simp]: "translate schemes h options from_name to_name cm data \<noteq> None"
  by (auto simp: translate_def Let_def split: sum.splits option.splits)

lemma t_total: "\<exists>r st'. t st data from_arg to_name options_arg = Some (r, st')"
  by (auto simp: t_def Let_def split: sum.splits option.splits)

section \<open>How the Roman engine reads its input\<close>























lemma makeMap_ex_hk_deva: "makeMap ex_schemes ''hk'' ''devanagari'' opts = Inr ex_map_hk_deva"
proof -
  have "makeMap ex_schemes ''hk'' ''devanagari'' () = Inr ex_map_hk_deva" by code_simp
  then show ?thesis by (simp add: makeMap_def)
qed

lemma makeMap_ex_deva_hk: "makeMap ex_schemes ''devanagari'' ''hk'' opts = Inr ex_map_deva_hk"
proof -
  have "makeMap ex_schemes ''devanagari'' ''hk'' () = Inr ex_map_deva_hk" by code_simp
  then show ?thesis by (simp add: makeMap_def)
qed

text \<open>
  Claim C9.  Every transliteration returns: the Roman engine returns on every input,
  map and options (its outer loop is the only unbounded loop of the library), each of
  its steps tries at most \<open>maxTokenLength\<close> candidate lengths, and \<open>Sanscript.t\<close>
  returns a string or an exception from every state.  The Brahmic engine is a single
  pass over the code units of its input, a total function by its definition.
\<close>

theorem transliteration_terminates:
  "(\<exists>r. transliterateRoman schemes data cm options = Some r)
   \<and> (\<exists>st. roman_run cm options data = Some st \<and> tokenBuffer st = []
            \<and> list_all (\<lambda>s. tries s \<le> max_len cm) (steps st))
   \<and> (\<exists>r st'. t st0 data from_arg to_name options_arg = Some (r, st'))"
proof -
  from roman_run_total [of cm options data] obtain st where
    st: "roman_run cm options data = Some st" "tokenBuffer st = []"
      "rinv cm (truthy (get_prop options (js ''syncope''))) (max_len cm) st" by blast
  from st(3) have "list_all (\<lambda>s. tries s \<le> max_len cm) (steps st)"
    by (auto simp: rinv_def dest: steps_ok_bounds)
  with st(1,2) transliterateRoman_total [of schemes data cm options]
    t_total [of st0 data from_arg to_name options_arg]
  show ?thesis by blast
qed




section \<open>Evaluations\<close>

text \<open>The theorem at \<open>namaH\<close>, Harvard-Kyoto to Devanagari.\<close>

theorem transliteration_terminates_witness:
  "(\<exists>r. transliterateRoman ex_schemes (js ''namaH'') ex_map_hk_deva [] = Some r)
   \<and> transliterateRoman ex_schemes (js ''namaH'') ex_map_hk_deva [] = Some (Inr [2344, 2350, 2307])"
proof -
  have "transliterateRoman ex_schemes (js ''namaH'') ex_map_hk_deva [] = Some (Inr [2344, 2350, 2307])"
    by code_simp
  with transliteration_terminates [of ex_schemes "js ''namaH''" ex_map_hk_deva "[]"]
  show ?thesis by blast
qed

text \<open>
  Claim C3 fails on the code.  With the small Devanagari to Harvard-Kyoto map, a lone
  \<open>#\<close> (35) is dropped when it is the whole input, when it ends the input after ka,
  and when the mark of aa follows it; it is copied when another letter follows.
\<close>

theorem dangling_hash_dropped:
  "makeMap ex_schemes ''devanagari'' ''hk'' () = Inr ex_map_deva_hk
   \<and> transliterateBrahmic ex_schemes [35] ex_map_deva_hk [] = Inr []
   \<and> transliterateBrahmic ex_schemes [2325, 35] ex_map_deva_hk [] = Inr (js ''ka'')
   \<and> transliterateBrahmic ex_schemes [2325, 35, 2366] ex_map_deva_hk [] = Inr (js ''kaA'')
   \<and> transliterateBrahmic ex_schemes [2325, 35, 2325] ex_map_deva_hk [] = Inr (js ''ka#ka'')
   \<and> map_option fst (t (initial_state ex_schemes) [2325, 35] ''devanagari'' ''hk'' None)
       = Some (Inr (js ''ka''))"
  by code_simp

text \<open>
  Claim C6 fails on the code.  With the shortcut \<open>K\<close> for \<open>kh\<close>, only the first \<open>K\<close> of
  \<open>KaKa\<close> is rewritten before the engine runs, so the second one reaches the output as
  a Latin letter; rewriting every occurrence gives \<open>khakha\<close>.
\<close>

theorem from_shortcuts_first_only:
  "apply_from_shortcuts [(js ''kh'', js ''K'')] (js ''KaKa'') = js ''khaKa''
   \<and> replace_all (js ''K'') (js ''kh'') (js ''KaKa'') = js ''khakha''
   \<and> map_option fst (t (initial_state ex_schemes_short) (js ''KaKa'') ''hk'' ''devanagari'' None)
       = Some (Inr [2326, 75, 2309])
   \<and> map_option fst (t (initial_state ex_schemes_short) (js ''khakha'') ''hk'' ''devanagari'' None)
       = Some (Inr [2326, 2326])"
  by code_simp

text \<open>
  Claim C7 fails on the code.  In \<open>M1ab\<close> (\<open>M\<close> the marker) the callback of
  \<open>pickAudioNumbers\<close> reads the number \<open>1ab\<close> while the regular expression strips only
  \<open>M1a\<close>; refilling gives \<open>M1abb\<close>.  On \<open>M12a x\<close> the two agree.
\<close>

theorem audio_roundtrip_fails:
  "pickAudioNumbers [] (9655 # js ''1ab'') = ([js ''1ab''], 9655 # js ''b'')
   \<and> refillAudioNumbers (fst (pickAudioNumbers [] (9655 # js ''1ab''))) 0
        (snd (pickAudioNumbers [] (9655 # js ''1ab''))) = 9655 # js ''1abb''
   \<and> refillAudioNumbers (fst (pickAudioNumbers [] (9655 # js ''12a x''))) 0
        (snd (pickAudioNumbers [] (9655 # js ''12a x''))) = 9655 # js ''12a x''"
  by code_simp

section \<open>Properties of Sanscript.t\<close>


lemma makeMap_options: "makeMap schemes f to_n o1 = makeMap schemes f to_n o2"
  by (simp add: makeMap_def)

lemma merge_key_cong:
  "fst hp = fst hp' \<Longrightarrow>
     map_sum id fst (merge_key dflt a c k hp) = map_sum id fst (merge_key dflt a c' k hp')"
  by (simp add: merge_key_def Let_def split: sum.splits)

lemma merge_key_snd: "merge_key dflt a c k hp = Inr hp' \<Longrightarrow> snd hp' \<Longrightarrow> snd hp"
  by (auto simp: merge_key_def Let_def split: sum.splits)

lemma merge_keys_cong:
  "fst hp = fst hp' \<Longrightarrow>
     map_sum id fst (merge_keys dflt a c ks hp) = map_sum id fst (merge_keys dflt a c' ks hp')"
proof (induction ks arbitrary: hp hp')
  case Nil
  then show ?case by simp
next
  case (Cons k ks)
  note mk = merge_key_cong [OF Cons.prems, of dflt a c k c']
  show ?case
  proof (cases "merge_key dflt a c k hp")
    case (Inl e)
    with mk have "merge_key dflt a c' k hp' = Inl e"
      by (cases "merge_key dflt a c' k hp'") simp_all
    with Inl Cons.prems show ?thesis by simp
  next
    case (Inr x)
    with mk obtain y where y: "merge_key dflt a c' k hp' = Inr y" "fst x = fst y"
      by (cases "merge_key dflt a c' k hp'") simp_all
    from Cons.IH [OF y(2)] Inr y(1) show ?thesis by simp
  qed
qed

lemma merge_keys_snd: "merge_keys dflt a c ks hp = Inr hp' \<Longrightarrow> snd hp' \<Longrightarrow> snd hp"
proof (induction ks arbitrary: hp)
  case Nil
  then show ?case by simp
next
  case (Cons k ks)
  from Cons.prems(1) obtain x where x: "merge_key dflt a c k hp = Inr x"
    "merge_keys dflt a c ks x = Inr hp'"
    by (auto split: sum.splits)
  from Cons.IH [OF x(2) Cons.prems(2)] have "snd x" .
  with x(1) show ?case by (rule merge_key_snd)
qed

lemma merge_options_merged:
  "map_sum id fst (merge_options (defaults st) (options_addr st oa) c
                     (heap_with_options st oa, p))
     = map_sum id fst (merged st oa)"
  unfolding merge_options_def merged_def by (rule merge_keys_cong) simp

lemma merge_options_prior:
  "merge_options dflt a c (h, p) = Inr hp \<Longrightarrow> snd hp \<Longrightarrow> p"
  unfolding merge_options_def by (drule merge_keys_snd) simp_all

lemma cache_ok_heap [simp]: "cache_ok (st\<lparr>heap := h\<rparr>) = cache_ok st"
  by (simp add: cache_ok_def split: option.splits)

text \<open>A call from a state with a sound cache returns what a fresh map gives, and leaves
  a sound cache.\<close>

lemma t_fresh:
  assumes ok: "cache_ok st"
  shows "\<exists>r st'. t st data from_arg to_name oa = Some (r, st')
           \<and> fresh_result st data from_arg to_name oa = Some r
           \<and> cache_ok st' \<and> heap st' = merged_heap st oa
           \<and> sanscript_schemes st' = sanscript_schemes st \<and> defaults st' = defaults st"
proof -
  let ?f = "source_name data from_arg"
  let ?a = "options_addr st oa"
  let ?m = "merge_options (defaults st) ?a (map_option cache_options (cache st))
               (heap_with_options st oa, prior_names st ?f to_name)"
  note mm = merge_options_merged [of st oa "map_option cache_options (cache st)"
      "prior_names st ?f to_name"]
  show ?thesis
  proof (cases ?m)
    case (Inl eh)
    with mm have m0: "merged st oa = Inl eh" by (cases "merged st oa") simp_all
    from Inl have "t st data from_arg to_name oa = Some (Inl (fst eh), st\<lparr>heap := snd eh\<rparr>)"
      by (simp add: t_def Let_def)
    moreover from m0 have "fresh_result st data from_arg to_name oa = Some (Inl (fst eh))"
      by (simp add: fresh_result_def)
    moreover from m0 have "merged_heap st oa = snd eh" by (simp add: merged_heap_def)
    ultimately show ?thesis using ok by simp
  next
    case (Inr hp)
    with mm obtain hp0 where m0: "merged st oa = Inr hp0" and h0: "fst hp0 = fst hp"
      by (cases "merged st oa") simp_all
    from m0 h0 have h: "merged_heap st oa = fst hp" by (simp add: merged_heap_def)
    show ?thesis
    proof (cases "snd hp")
      case hit: True
      with Inr have "prior_names st ?f to_name" by (rule merge_options_prior)
      then obtain c where c: "cache st = Some c" "cache_from c = ?f" "cache_to c = to_name"
        by (auto simp: prior_names_def split: option.splits)
      with ok have mk: "makeMap (sanscript_schemes st) ?f to_name () = Inr (cache_map c)"
        by (simp add: cache_ok_def)
      obtain r where r: "translate (sanscript_schemes st) (fst hp)
          (obj_at (fst hp) ?a) ?f to_name (cache_map c) data = Some r"
        using translate_Some by fastforce
      from Inr hit c r have "t st data from_arg to_name oa = Some (r, st\<lparr>heap := fst hp\<rparr>)"
        by (simp add: t_def Let_def)
      moreover from mk r m0 h0 have "fresh_result st data from_arg to_name oa = Some r"
        by (simp add: fresh_result_def)
      ultimately show ?thesis using ok h by simp
    next
      case miss: False
      show ?thesis
      proof (cases "makeMap (sanscript_schemes st) ?f to_name ()")
        case (Inl e)
        then have mk: "makeMap (sanscript_schemes st) ?f to_name ?a = Inl e"
          by (simp add: makeMap_options [of _ _ _ ?a "()"])
        from Inr miss mk have "t st data from_arg to_name oa = Some (Inl e, st\<lparr>heap := fst hp\<rparr>)"
          by (simp add: t_def Let_def)
        moreover from Inl m0 have "fresh_result st data from_arg to_name oa = Some (Inl e)"
          by (simp add: fresh_result_def)
        ultimately show ?thesis using ok h by simp
      next
        case mkr: (Inr cm)
        then have mk: "makeMap (sanscript_schemes st) ?f to_name ?a = Inr cm"
          by (simp add: makeMap_options [of _ _ _ ?a "()"])
        obtain r where r: "translate (sanscript_schemes st) (fst hp)
            (obj_at (fst hp) ?a) ?f to_name cm data = Some r"
          using translate_Some by fastforce
        let ?st' = "st\<lparr>heap := fst hp,
                        cache := Some \<lparr>cache_from = ?f, cache_map = cm,
                                       cache_options = ?a, cache_to = to_name\<rparr>\<rparr>"
        from Inr miss mk r have "t st data from_arg to_name oa = Some (r, ?st')"
          by (simp add: t_def Let_def)
        moreover from mkr r m0 h0 have "fresh_result st data from_arg to_name oa = Some r"
          by (simp add: fresh_result_def)
        moreover from mkr have "cache_ok ?st'" by (simp add: cache_ok_def)
        ultimately show ?thesis using h by simp
      qed
    qed
  qed
qed

lemma merged_cong:
  "heap st = heap st' \<Longrightarrow> defaults st = defaults st' \<Longrightarrow> merged st oa = merged st' oa"
  by (cases oa) (simp_all add: merged_def options_addr_def heap_with_options_def)

lemma merged_heap_cong:
  "heap st = heap st' \<Longrightarrow> defaults st = defaults st' \<Longrightarrow> merged_heap st oa = merged_heap st' oa"
  by (simp add: merged_heap_def merged_cong [of st st'])

lemma fresh_result_cong:
  "heap st = heap st' \<Longrightarrow> defaults st = defaults st' \<Longrightarrow>
   sanscript_schemes st = sanscript_schemes st' \<Longrightarrow>
   fresh_result st data f to_n oa = fresh_result st' data f to_n oa"
  by (cases oa)
     (simp_all add: fresh_result_def merged_cong [of st st'] options_addr_def
        split: sum.splits)

lemma cache_ok_empty [simp]: "cache_ok (st\<lparr>cache := None\<rparr>)"
  by (simp add: cache_ok_def)


text \<open>Two runs from states that differ only in their (sound) caches give the same
  results, one with the cache and one rebuilding the map at every call.\<close>

lemma run_calls_rebuilt:
  assumes "cache_ok st" and "cache_ok st'"
    and "heap st = heap st'" and "defaults st = defaults st'"
    and "sanscript_schemes st = sanscript_schemes st'"
  shows "run_calls t st cs = run_calls t_rebuilt st' cs"
  using assms
proof (induction cs arbitrary: st st')
  case Nil
  show ?case by simp
next
  case (Cons c cs)
  let ?s = "st\<lparr>heap := call_writes c (heap st)\<rparr>"
  let ?s' = "st'\<lparr>heap := call_writes c (heap st'), cache := None\<rparr>"
  from Cons.prems(1) have ok: "cache_ok ?s" by simp
  have ok': "cache_ok ?s'" by (simp add: cache_ok_def)
  from t_fresh [OF ok, of "call_data c" "call_from c" "call_to c" "call_options c"]
  obtain r s1 where 1: "t ?s (call_data c) (call_from c) (call_to c) (call_options c) = Some (r, s1)"
    "fresh_result ?s (call_data c) (call_from c) (call_to c) (call_options c) = Some r"
    "cache_ok s1" "heap s1 = merged_heap ?s (call_options c)"
    "sanscript_schemes s1 = sanscript_schemes ?s" "defaults s1 = defaults ?s" by blast
  from t_fresh [OF ok', of "call_data c" "call_from c" "call_to c" "call_options c"]
  obtain r' s2 where 2: "t ?s' (call_data c) (call_from c) (call_to c) (call_options c) = Some (r', s2)"
    "fresh_result ?s' (call_data c) (call_from c) (call_to c) (call_options c) = Some r'"
    "cache_ok s2" "heap s2 = merged_heap ?s' (call_options c)"
    "sanscript_schemes s2 = sanscript_schemes ?s'" "defaults s2 = defaults ?s'" by blast
  from Cons.prems have eqs: "heap ?s = heap ?s'" "defaults ?s = defaults ?s'"
    "sanscript_schemes ?s = sanscript_schemes ?s'" by simp_all
  from 1(2) 2(2) fresh_result_cong [OF eqs] have rr: "r' = r" by simp
  from 1(4) 2(4) merged_heap_cong [OF eqs(1,2)] have hh: "heap s1 = heap s2" by simp
  from 1(5,6) 2(5,6) eqs have dd: "defaults s1 = defaults s2"
    and ss: "sanscript_schemes s1 = sanscript_schemes s2" by simp_all
  have "run_calls t s1 cs = run_calls t_rebuilt s2 cs"
    by (rule Cons.IH [OF 1(3) 2(3) hh dd ss])
  moreover from 2(1) rr
  have "t_rebuilt (st'\<lparr>heap := call_writes c (heap st')\<rparr>) (call_data c) (call_from c)
          (call_to c) (call_options c) = Some (r, s2)"
    by (simp add: t_rebuilt_def)
  ultimately show ?case using 1(1) by simp
qed

text \<open>
  Claim C8.  From the initial state of the library, with any registry, every sequence
  of calls of \<open>Sanscript.t\<close> (the client free to rewrite the heap between them) returns
  the same results with the cache as with the map rebuilt at every call; and in every
  state whose cached map is the map of its names, a call returns what a map built from
  scratch gives, as does the same call with the cache cleared first.
\<close>

theorem cache_transparent:
  "run_calls t (initial_state schemes) calls = run_calls t_rebuilt (initial_state schemes) calls
   \<and> (cache_ok st \<longrightarrow>
        map_option fst (t st data from_arg to_name oa) = fresh_result st data from_arg to_name oa
        \<and> map_option fst (t_rebuilt st data from_arg to_name oa)
            = fresh_result st data from_arg to_name oa)"
proof -
  have init: "cache_ok (initial_state schemes)" by (simp add: cache_ok_def initial_state_def)
  have a: "run_calls t (initial_state schemes) calls = run_calls t_rebuilt (initial_state schemes) calls"
    by (rule run_calls_rebuilt [OF init init]) simp_all
  have b: "map_option fst (t st data from_arg to_name oa) = fresh_result st data from_arg to_name oa"
    if "cache_ok st" for st
    using t_fresh [OF that, of data from_arg to_name oa] by auto
  have c: "map_option fst (t_rebuilt st data from_arg to_name oa)
            = fresh_result st data from_arg to_name oa"
  proof -
    have "map_option fst (t (st\<lparr>cache := None\<rparr>) data from_arg to_name oa)
        = fresh_result (st\<lparr>cache := None\<rparr>) data from_arg to_name oa"
      by (rule b) simp
    also have "\<dots> = fresh_result st data from_arg to_name oa"
      by (rule fresh_result_cong) simp_all
    finally show ?thesis by (simp add: t_rebuilt_def)
  qed
  from a b c show ?thesis by blast
qed

text \<open>The theorem at two equal calls, Harvard-Kyoto to Devanagari; the second is served
  from the cache.\<close>

theorem cache_transparent_witness:
  "run_calls t (initial_state ex_schemes)
     [\<lparr>call_writes = id, call_data = js ''kA'', call_from = ''hk'', call_to = ''devanagari'',
        call_options = None\<rparr>,
      \<lparr>call_writes = id, call_data = js ''kA'', call_from = ''hk'', call_to = ''devanagari'',
        call_options = None\<rparr>]
     = Some [Inr [2325, 2366], Inr [2325, 2366]]
   \<and> run_calls t_rebuilt (initial_state ex_schemes)
     [\<lparr>call_writes = id, call_data = js ''kA'', call_from = ''hk'', call_to = ''devanagari'',
        call_options = None\<rparr>,
      \<lparr>call_writes = id, call_data = js ''kA'', call_from = ''hk'', call_to = ''devanagari'',
        call_options = None\<rparr>]
     = Some [Inr [2325, 2366], Inr [2325, 2366]]"
proof -
  have "run_calls t (initial_state ex_schemes)
     [\<lparr>call_writes = id, call_data = js ''kA'', call_from = ''hk'', call_to = ''devanagari'',
        call_options = None\<rparr>,
      \<lparr>call_writes = id, call_data = js ''kA'', call_from = ''hk'', call_to = ''devanagari'',
        call_options = None\<rparr>]
     = Some [Inr [2325, 2366], Inr [2325, 2366]]"
    by code_simp
  with cache_transparent [of ex_schemes] show ?thesis by metis
qed















section \<open>The tokens and the failures of \<open>makeMap\<close>\<close>


lemma fold_update_keys:
  "fst ` set (fold (\<lambda>k. AList.update k v) ks m) = fst ` set m \<union> set ks"
  by (induction ks arbitrary: m) (auto simp: dom_update)

lemma put_all_keys: "fst ` set (put_all m F alts v) = fst ` set m \<union> set (F # alts)"
  unfolding put_all_def by (rule fold_update_keys)

lemma add_entry_lengths:
  "tokenLengths (add_entry g al tg kF b) = tokenLengths b @ map length (entry_tokens al tg kF)"
  by (simp add: add_entry_def entry_tokens_def Let_def split: option.splits)

lemma add_entry_letters:
  "fst ` set (letters (add_entry g al tg kF b)) =
     fst ` set (letters b) \<union> (if letter_group (g, x) then set (entry_tokens al tg kF) else {})"
  by (auto simp: add_entry_def entry_tokens_def Let_def put_all_keys letter_group_def
        split: option.splits)

lemma add_entry_marks:
  "fst ` set (marks (add_entry g al tg kF b)) =
     fst ` set (marks b) \<union> (if letter_group (g, x) then {} else set (entry_tokens al tg kF))"
  by (auto simp: add_entry_def entry_tokens_def Let_def put_all_keys letter_group_def
        split: option.splits)

lemma fold_add_entry:
  "tokenLengths (fold (add_entry g al tg) es b) =
     tokenLengths b @ map length (concat (map (entry_tokens al tg) es))
   \<and> fst ` set (letters (fold (add_entry g al tg) es b)) =
       fst ` set (letters b)
         \<union> (if letter_group (g, x) then set (concat (map (entry_tokens al tg) es)) else {})
   \<and> fst ` set (marks (fold (add_entry g al tg) es b)) =
       fst ` set (marks b)
         \<union> (if letter_group (g, x) then {} else set (concat (map (entry_tokens al tg) es)))"
proof (induction es arbitrary: b)
  case Nil
  show ?case by simp
next
  case (Cons e es)
  show ?case
    using Cons.IH [of "add_entry g al tg e b"]
    by (auto simp: add_entry_lengths add_entry_letters [where x = x] add_entry_marks [where x = x])
qed

lemma add_group_facts:
  "tokenLengths (add_group fs ts g b) = tokenLengths b @ map length (tokens_of_group fs ts g)
   \<and> fst ` set (letters (add_group fs ts g b)) =
       fst ` set (letters b) \<union> (if letter_group g then set (tokens_of_group fs ts g) else {})
   \<and> fst ` set (marks (add_group fs ts g b)) =
       fst ` set (marks b) \<union> (if letter_group g then {} else set (tokens_of_group fs ts g))"
proof (cases "fst g \<in> set [''alternates'', ''accented_vowel_alternates'', ''isRomanScheme'']
              \<or> map_of (groups ts) (fst g) = None")
  case True
  then show ?thesis by (auto simp: add_group_def tokens_of_group_def)
next
  case False
  then obtain tg where tg: "map_of (groups ts) (fst g) = Some tg" by auto
  from False have nm: "fst g \<notin> set [''alternates'', ''accented_vowel_alternates'', ''isRomanScheme'']"
    by simp
  have lg: "letter_group (fst g, snd g) = letter_group g" by simp
  from nm tg have ag: "add_group fs ts g b =
      fold (add_entry (fst g) (case alternates fs of None \<Rightarrow> [] | Some a \<Rightarrow> a) tg) (snd g) b"
    by (simp add: add_group_def)
  from nm tg have tk: "tokens_of_group fs ts g =
      concat (map (entry_tokens (case alternates fs of None \<Rightarrow> [] | Some a \<Rightarrow> a) tg) (snd g))"
    by (simp add: tokens_of_group_def)
  show ?thesis
    unfolding ag tk
    using fold_add_entry [of "fst g" "case alternates fs of None \<Rightarrow> [] | Some a \<Rightarrow> a" tg "snd g" b "snd g"]
    by (simp only: lg)
qed

lemma fold_add_group:
  "tokenLengths (fold (add_group fs ts) gs b) =
     tokenLengths b @ map length (concat (map (tokens_of_group fs ts) gs))
   \<and> fst ` set (letters (fold (add_group fs ts) gs b)) =
       fst ` set (letters b) \<union> set (concat (map (tokens_of_group fs ts) (filter letter_group gs)))
   \<and> fst ` set (marks (fold (add_group fs ts) gs b)) =
       fst ` set (marks b)
         \<union> set (concat (map (tokens_of_group fs ts) (filter (\<lambda>g. \<not> letter_group g) gs)))"
proof (induction gs arbitrary: b)
  case Nil
  show ?case by simp
next
  case (Cons g gs)
  show ?case
    using Cons.IH [of "add_group fs ts g b"] add_group_facts [of fs ts g b]
    by (cases "letter_group g") auto
qed

lemma group_loop_facts:
  "tokenLengths (fold (add_group fs ts) (groups fs) empty_build) = map length (group_tokens fs ts)
   \<and> fst ` set (letters (fold (add_group fs ts) (groups fs) empty_build)) = set (letter_tokens fs ts)
   \<and> fst ` set (letters (fold (add_group fs ts) (groups fs) empty_build))
       \<union> fst ` set (marks (fold (add_group fs ts) (groups fs) empty_build)) = set (group_tokens fs ts)"
proof -
  have "set (concat (map (tokens_of_group fs ts) (filter letter_group (groups fs))))
      \<union> set (concat (map (tokens_of_group fs ts) (filter (\<lambda>g. \<not> letter_group g) (groups fs))))
      = set (concat (map (tokens_of_group fs ts) (groups fs)))"
    by auto
  with fold_add_group [of fs ts "groups fs" empty_build] show ?thesis
    by (simp add: group_tokens_def letter_tokens_def empty_build_def)
qed



lemma map_of_None_keys: "map_of m k = None \<longleftrightarrow> k \<notin> fst ` set m"
  by (simp add: map_of_eq_None_iff)

lemma add_synonym_fails:
  "(\<exists>e. add_synonym B s b = Inl e) \<longleftrightarrow> butlast B \<notin> fst ` set (letters b)"
  by (simp add: add_synonym_def Let_def map_of_None_keys [symmetric] split: option.splits)

lemma add_synonym_success:
  assumes "add_synonym B s b = Inr b'"
  shows "fst ` set (letters b') = insert s (fst ` set (letters b))
     \<and> fst ` set (marks b') = insert s (fst ` set (marks b))
     \<and> tokenLengths b' = tokenLengths b"
proof -
  from assms obtain l where l: "map_of (letters b) (butlast B) = Some l"
    by (cases "map_of (letters b) (butlast B)") (simp_all add: add_synonym_def Let_def)
  from assms have eq: "b' = (case add_synonym B s b of Inl e \<Rightarrow> b | Inr x \<Rightarrow> x)"
    by simp
  show ?thesis
    unfolding eq using l by (simp add: add_synonym_def Let_def dom_update)
qed

lemma add_synonyms_fails:
  "(\<exists>e. add_synonyms B syns b = Inl e) \<longleftrightarrow> syns \<noteq> [] \<and> butlast B \<notin> fst ` set (letters b)"
proof (induction syns arbitrary: b)
  case Nil
  show ?case by simp
next
  case (Cons s syns)
  show ?case
  proof (cases "add_synonym B s b")
    case (Inl e)
    with add_synonym_fails [of B s b] show ?thesis by auto
  next
    case (Inr b')
    with add_synonym_fails [of B s b] have inb: "butlast B \<in> fst ` set (letters b)" by auto
    from Inr have "fst ` set (letters b') = insert s (fst ` set (letters b))"
      by (simp add: add_synonym_success)
    with inb have "butlast B \<in> fst ` set (letters b')" by simp
    with Cons.IH [of b'] Inr inb show ?thesis by simp
  qed
qed

lemma add_synonyms_success:
  "add_synonyms B syns b = Inr b' \<Longrightarrow>
     fst ` set (letters b') = fst ` set (letters b) \<union> set syns
     \<and> fst ` set (marks b') = fst ` set (marks b) \<union> set syns
     \<and> tokenLengths b' = tokenLengths b"
proof (induction syns arbitrary: b)
  case Nil
  then show ?case by simp
next
  case (Cons s syns)
  from Cons.prems obtain b1 where b1: "add_synonym B s b = Inr b1"
    and rest: "add_synonyms B syns b1 = Inr b'"
    by (auto split: sum.splits)
  from add_synonym_success [OF b1] Cons.IH [OF rest] show ?case by auto
qed

lemma add_accented_fails:
  "(\<exists>e. add_accented ava b = Inl e) \<longleftrightarrow> missing_base (fst ` set (letters b)) ava"
proof (induction ava arbitrary: b)
  case Nil
  show ?case by simp
next
  case (Cons e es)
  show ?case
  proof (cases "add_synonyms (fst e) (snd e) b")
    case (Inl err)
    with add_synonyms_fails [of "fst e" "snd e" b] show ?thesis by auto
  next
    case (Inr b')
    with add_synonyms_fails [of "fst e" "snd e" b]
    have ok: "\<not> (snd e \<noteq> [] \<and> butlast (fst e) \<notin> fst ` set (letters b))" by auto
    from add_synonyms_success [OF Inr]
    have k: "fst ` set (letters b') = fst ` set (letters b) \<union> set (snd e)" by simp
    from Cons.IH [of b'] Inr ok k show ?thesis by auto
  qed
qed


text \<open>The table that \<open>makeMap\<close> has built when it reaches its \<open>return\<close>.\<close>

lemma makeMap_build_fails:
  "(\<exists>e. (case accented_vowel_alternates fs of
            None \<Rightarrow> Inr (fold (add_group fs ts) (groups fs) empty_build)
          | Some ava \<Rightarrow> add_accented ava (fold (add_group fs ts) (groups fs) empty_build)) = Inl e)
   \<longleftrightarrow> scheme_missing_base fs ts"
  using group_loop_facts [of fs ts]
  by (cases "accented_vowel_alternates fs")
     (simp_all add: scheme_missing_base_def add_accented_fails)


lemma sum_cases_error: "(\<exists>e. x = Inl e) \<or> (\<exists>b. x = Inr b)"
  by (cases x) auto

section \<open>The claims about \<open>makeMap\<close>\<close>





text \<open>
  Claim C2, amended.  \<open>makeMap\<close> raises exactly when the source or the target name is
  not registered, or, both being registered, when an entry of
  \<open>accented_vowel_alternates\<close> that has a synonym is reached while its key without the
  last code unit is not a key of \<open>letters\<close> (the diagnostic is logged and the next
  statement raises), or when the target scheme has no \<open>virama\<close> or no \<open>vowels\<close> group,
  or the source scheme has no \<open>vowels\<close> group.
\<close>

theorem makeMap_fails_iff:
  "(\<exists>e. makeMap schemes src dst opts = Inl e) \<longleftrightarrow>
     (case schemes src of
        None \<Rightarrow> True
      | Some fs \<Rightarrow>
          (case schemes dst of
             None \<Rightarrow> True
           | Some ts \<Rightarrow>
               scheme_missing_base fs ts
               \<or> map_of (groups ts) ''virama'' = None
               \<or> map_of (groups ts) ''vowels'' = None
               \<or> map_of (groups fs) ''vowels'' = None))"
proof (cases "schemes src")
  case None
  then show ?thesis by (simp add: makeMap_def)
next
  case fs: (Some fs)
  show ?thesis
  proof (cases "schemes dst")
    case None
    with fs show ?thesis by (simp add: makeMap_def)
  next
    case ts: (Some ts)
    let ?b = "case accented_vowel_alternates fs of
                None \<Rightarrow> Inr (fold (add_group fs ts) (groups fs) empty_build)
              | Some ava \<Rightarrow> add_accented ava (fold (add_group fs ts) (groups fs) empty_build)"
    show ?thesis
    proof (cases ?b)
      case (Inl e)
      with makeMap_build_fails [of fs ts] have "scheme_missing_base fs ts" by auto
      with fs ts Inl show ?thesis by (simp add: makeMap_def)
    next
      case (Inr b)
      with makeMap_build_fails [of fs ts] have "\<not> scheme_missing_base fs ts" by auto
      with fs ts Inr show ?thesis by (simp add: makeMap_def split: option.splits)
    qed
  qed
qed

text \<open>The theorem at the scheme whose accented vowel \<open>e'\<close> has no base \<open>e\<close>.\<close>

theorem makeMap_fails_iff_witness:
  "scheme_missing_base ex_accent_missing ex_deva
   \<and> (\<exists>e. makeMap ex_schemes_accent ''missing'' ''devanagari'' () = Inl e)"
proof -
  have m: "scheme_missing_base ex_accent_missing ex_deva" by code_simp
  have r: "ex_schemes_accent ''missing'' = Some ex_accent_missing"
    "ex_schemes_accent ''devanagari'' = Some ex_deva"
    by (simp_all add: ex_schemes_accent_def)
  from makeMap_fails_iff [of ex_schemes_accent "''missing''" "''devanagari''" "()"] m r
  show ?thesis by simp
qed

text \<open>
  Claim C2 as stated fails.  Both schemes are registered, the accented vowel \<open>e'\<close> of
  the source has the synonym U+00E9 and the source has no vowel \<open>e\<close>: \<open>makeMap\<close> raises
  a TypeError.
\<close>

theorem makeMap_registered_raises:
  "(case ex_schemes_accent ''missing'' of None \<Rightarrow> False | Some fs \<Rightarrow> True)
   \<and> (case ex_schemes_accent ''devanagari'' of None \<Rightarrow> False | Some ts \<Rightarrow> True)
   \<and> makeMap ex_schemes_accent ''missing'' ''devanagari'' () = Inl TypeError"
  by code_simp




end
